theory Spec2Isabelle
  imports Main "HOL-Library.Multiset"
begin

section \<open>Strings as Python sees them\<close>

text \<open>
  A Python \<open>str\<close> is a sequence of code points. The model is \<open>string\<close>, read as a
  sequence of code points below 256 (ASCII and Latin-1); \<open>length\<close> therefore counts what
  Python's \<open>len\<close> counts. The character classes below are the ones Python 3 uses for
  \<open>str\<close> objects, cut down to that range: \<open>\d\<close> is the decimal digits, \<open>\s\<close> and
  \<open>str.strip\<close> use the same white space set.
\<close>

definition is_digit :: "char \<Rightarrow> bool" where
  "is_digit c = (c \<in> set ''0123456789'')"

definition is_space :: "char \<Rightarrow> bool" where
  "is_space c = (c \<in> set [CHR 0x09, CHR 0x0A, CHR 0x0B, CHR 0x0C, CHR 0x0D,
                            CHR 0x1C, CHR 0x1D, CHR 0x1E, CHR 0x1F, CHR 0x20,
                            CHR 0x85, CHR 0xA0])"

definition upper_letters :: string where
  "upper_letters = ''ABCDEFGHIJKLMNOPQRSTUVWXYZ'' @
     [CHR 0xC0, CHR 0xC1, CHR 0xC2, CHR 0xC3, CHR 0xC4, CHR 0xC5, CHR 0xC6, CHR 0xC7,
      CHR 0xC8, CHR 0xC9, CHR 0xCA, CHR 0xCB, CHR 0xCC, CHR 0xCD, CHR 0xCE, CHR 0xCF,
      CHR 0xD0, CHR 0xD1, CHR 0xD2, CHR 0xD3, CHR 0xD4, CHR 0xD5, CHR 0xD6,
      CHR 0xD8, CHR 0xD9, CHR 0xDA, CHR 0xDB, CHR 0xDC, CHR 0xDD, CHR 0xDE]"

definition lower_letters :: string where
  "lower_letters = ''abcdefghijklmnopqrstuvwxyz'' @
     [CHR 0xE0, CHR 0xE1, CHR 0xE2, CHR 0xE3, CHR 0xE4, CHR 0xE5, CHR 0xE6, CHR 0xE7,
      CHR 0xE8, CHR 0xE9, CHR 0xEA, CHR 0xEB, CHR 0xEC, CHR 0xED, CHR 0xEE, CHR 0xEF,
      CHR 0xF0, CHR 0xF1, CHR 0xF2, CHR 0xF3, CHR 0xF4, CHR 0xF5, CHR 0xF6,
      CHR 0xF8, CHR 0xF9, CHR 0xFA, CHR 0xFB, CHR 0xFC, CHR 0xFD, CHR 0xFE]"

text \<open>\<open>str.lower\<close>: every upper-case letter of the range has its lower-case partner in the range.\<close>

definition lower_char :: "char \<Rightarrow> char" where
  "lower_char c = (case map_of (zip upper_letters lower_letters) c of Some d \<Rightarrow> d | None \<Rightarrow> c)"

definition lower :: "string \<Rightarrow> string" where
  "lower s = map lower_char s"

text \<open>
  \<open>str.upper\<close>, for the letters whose upper-case form lies in the range. (The small letters
  at 0xB5, 0xDF and 0xFF have theirs outside it and are left as they are; the source applies
  \<open>upper\<close> only to the two letters the time pattern captured.)
\<close>

definition upper_char :: "char \<Rightarrow> char" where
  "upper_char c = (case map_of (zip lower_letters upper_letters) c of Some d \<Rightarrow> d | None \<Rightarrow> c)"

definition upper :: "string \<Rightarrow> string" where
  "upper s = map upper_char s"

definition is_cased :: "char \<Rightarrow> bool" where
  "is_cased c = (c \<in> set upper_letters \<or> c \<in> set lower_letters \<or>
                 c \<in> set [CHR 0xAA, CHR 0xB5, CHR 0xBA, CHR 0xDF, CHR 0xFF])"

text \<open>
  \<open>str.title\<close>: a letter that follows a cased letter is lowered, any other is raised;
  the sharp s at 0xDF is raised to the two letters Ss. (The letters at 0xB5 and 0xFF,
  raised, are outside the range and are left as they are.) The source calls it in one
  place, the last line of \<open>_normalize_day\<close>.
\<close>

definition title_char :: "char \<Rightarrow> string" where
  "title_char c = (if c = CHR 0xDF then ''Ss'' else [upper_char c])"

fun title_from :: "bool \<Rightarrow> string \<Rightarrow> string" where
  "title_from prev_cased [] = []"
| "title_from prev_cased (c # cs) =
     (if prev_cased then [lower_char c] else title_char c) @ title_from (is_cased c) cs"

definition title :: "string \<Rightarrow> string" where
  "title s = title_from False s"

definition strip :: "string \<Rightarrow> string" where
  "strip s = rev (dropWhile is_space (rev (dropWhile is_space s)))"

text \<open>\<open>s.startswith(p)\<close> and the substring test \<open>p in s\<close>.\<close>

fun startswith :: "string \<Rightarrow> string \<Rightarrow> bool" where
  "startswith s [] = True"
| "startswith [] (p # ps) = False"
| "startswith (c # cs) (p # ps) = (c = p \<and> startswith cs ps)"

fun contains :: "string \<Rightarrow> string \<Rightarrow> bool" where
  "contains [] p = startswith [] p"
| "contains (c # cs) p = (startswith (c # cs) p \<or> contains cs p)"

text \<open>\<open>int\<close> of a string of ASCII digits, and \<open>str\<close> of a natural number.\<close>

definition digit_val :: "char \<Rightarrow> nat" where
  "digit_val c = of_char c - 48"

definition dec_val :: "string \<Rightarrow> nat" where
  "dec_val ds = foldl (\<lambda>acc c. 10 * acc + digit_val c) 0 ds"

definition digit_char :: "nat \<Rightarrow> char" where
  "digit_char d = ''0123456789'' ! d"

function str_nat :: "nat \<Rightarrow> string" where
  "str_nat n = (if n < 10 then [digit_char n] else str_nat (n div 10) @ [digit_char (n mod 10)])"
  by pat_completeness auto
termination
  by (relation "measure (\<lambda>n. n)") auto

declare str_nat.simps [simp del]

definition str_int :: "int \<Rightarrow> string" where
  "str_int i = (if i < 0 then CHR ''-'' # str_nat (nat (- i)) else str_nat (nat i))"

section \<open>The clock pattern\<close>

text \<open>
  \<^verbatim>\<open>re.search(r"(\d{1,2}):(\d{2})\s*([APap][Mm])", s)\<close>. The matcher tries every
  start position from the left; at one position \<open>\d{1,2}\<close> takes two digits first and
  one digit on backtracking. \<open>\s*\<close> takes all the white space there is: the next
  character has to be a letter, so giving white space back never helps. The result is
  the pair of groups 1 and 3.
\<close>

fun match_time_tail :: "string \<Rightarrow> string option" where
  "match_time_tail (c # m1 # m2 # rest) =
     (if c = CHR '':'' \<and> is_digit m1 \<and> is_digit m2 then
        (case dropWhile is_space rest of
           a # m # _ \<Rightarrow> if a \<in> set ''APap'' \<and> m \<in> set ''Mm'' then Some [a, m] else None
         | _ \<Rightarrow> None)
      else None)"
| "match_time_tail _ = None"

definition match_time_with :: "nat \<Rightarrow> string \<Rightarrow> (string \<times> string) option" where
  "match_time_with n s =
     (if n \<le> length s \<and> list_all is_digit (take n s)
      then map_option (Pair (take n s)) (match_time_tail (drop n s))
      else None)"

definition match_time_at :: "string \<Rightarrow> (string \<times> string) option" where
  "match_time_at s =
     (case match_time_with 2 s of Some r \<Rightarrow> Some r | None \<Rightarrow> match_time_with 1 s)"

fun search_time :: "string \<Rightarrow> (string \<times> string) option" where
  "search_time [] = match_time_at []"
| "search_time (c # cs) =
     (case match_time_at (c # cs) of Some r \<Rightarrow> Some r | None \<Rightarrow> search_time cs)"

section \<open>Text classifiers of the crawler\<close>

text \<open>
  \<open>_classify_time\<close>, lines 333 to 338: the hour on the 24-hour clock, from groups 1 and 3.
\<close>

definition classify_hour :: "string \<Rightarrow> string \<Rightarrow> nat" where
  "classify_hour g1 g3 =
     (let hour = dec_val g1;
          ampm = upper g3;
          hour = (if ampm = ''PM'' \<and> hour \<noteq> 12 then hour + 12 else hour);
          hour = (if ampm = ''AM'' \<and> hour = 12 then 0 else hour)
      in hour)"

definition classify_time :: "string \<Rightarrow> string" where
  "classify_time time_raw =
     (case search_time time_raw of
        None \<Rightarrow> ''Morning''
      | Some (g1, g3) \<Rightarrow>
          (let hour = classify_hour g1 g3 in
           if hour < 12 then ''Morning''
           else if hour < 17 then ''Afternoon''
           else if hour < 21 then ''Evening''
           else ''Overnight''))"

definition KNOWN_COMMITTEES :: "string list" where
  "KNOWN_COMMITTEES =
     [''Receiving'', ''Stocking'', ''Checkout'', ''Produce'', ''Maintenance'',
      ''Food Processing'', ''Office'', ''Childcare'', ''Orientation'', ''Inventory'',
      ''Shopping'', ''Cashier'', ''FTOP'']"

definition DAY_NAMES :: "string list" where
  "DAY_NAMES = [''Monday'', ''Tuesday'', ''Wednesday'', ''Thursday'', ''Friday'',
                ''Saturday'', ''Sunday'']"

definition BASE :: string where
  "BASE = ''https://members.foodcoop.com''"

text \<open>\<open>_safe_idx\<close>; the index comes from the header map and is never negative.\<close>

definition safe_idx :: "'a list \<Rightarrow> nat option \<Rightarrow> 'a option" where
  "safe_idx lst idx =
     (case idx of None \<Rightarrow> None
      | Some i \<Rightarrow> if i < length lst then Some (lst ! i) else None)"

definition is_day_name :: "string \<Rightarrow> bool" where
  "is_day_name text =
     list_ex (startswith (lower (strip text)))
       [''mon'', ''tue'', ''wed'', ''thu'', ''fri'', ''sat'', ''sun'']"

definition normalize_day :: "string \<Rightarrow> string" where
  "normalize_day text =
     (let t = take 3 (lower (strip text)) in
      case find (\<lambda>d. startswith (lower d) t) DAY_NAMES of
        Some d \<Rightarrow> d
      | None \<Rightarrow> title (strip text))"

definition fuzzy_committee :: "string \<Rightarrow> string option" where
  "fuzzy_committee text =
     (let t = lower (strip text) in
      find (\<lambda>c. contains t (lower c) \<or> contains (lower c) t) KNOWN_COMMITTEES)"

section \<open>JSON values and exceptions\<close>

text \<open>
  The records and the preferences that reach the scorer come from the crawler or from a
  JSON request body, so a value is any JSON value as Python reads it: \<open>None\<close>, a
  \<open>bool\<close>, an \<open>int\<close>, a \<open>float\<close>, a \<open>str\<close>, a list or a dict. A float is finite, with
  the value \<open>m * 2 ^ e\<close>, or an infinity (the flag is its sign), or not a number.
  An exception of the source is a result \<open>Inl e\<close>.
\<close>

datatype pyfloat = FFinite int int | FInf bool | FNaN

datatype json =
  JNull | JBool bool | JNum int | JFloat pyfloat | JStr string | JList "json list" |
  JObj "(string \<times> json) list"

datatype error = TypeError | AttributeError | ValueError | OverflowError

section \<open>The canonical shift record\<close>

text \<open>
  A shift is a Python dict. The keys that one of the two strategies leaves out (\<open>date\<close>,
  \<open>status\<close>, \<open>is_carrot\<close>), the key that is assigned after the dict is built (\<open>id\<close>) and
  the keys the scorer reads through \<open>get\<close> with a default are optional fields: \<open>None\<close>
  is an absent key. The value of \<open>slots\<close> is a text in a record of the crawler and any
  JSON value in a record that a request sends back for scoring.
\<close>

record shift =
  sh_id :: "string option"
  sh_day :: "string option"
  sh_date :: "string option"
  sh_time_raw :: "string option"
  sh_time_slot :: "string option"
  sh_committee :: "string option"
  sh_description :: string
  sh_signup_url :: string
  sh_slots :: "json option"
  sh_status :: "string option"
  sh_is_carrot :: "bool option"
  sh_source_table :: "nat + string"
  sh_source_row :: nat

text \<open>The \<open>slots\<close> of a record are a text.\<close>

definition slots_is_text :: "shift \<Rightarrow> bool" where
  "slots_is_text s = (case sh_slots s of Some (JStr x) \<Rightarrow> True | _ \<Rightarrow> False)"

text \<open>\<^verbatim>\<open>f"shift_{counter:03d}"\<close>: at least three digits, zeros in front.\<close>

definition zero_pad3 :: "string \<Rightarrow> string" where
  "zero_pad3 ds = replicate (3 - length ds) (CHR ''0'') @ ds"

definition shift_id :: "nat \<Rightarrow> string" where
  "shift_id counter = ''shift_'' @ zero_pad3 (str_nat counter)"

text \<open>\<open>sep.join(parts)\<close>.\<close>

fun join :: "string \<Rightarrow> string list \<Rightarrow> string" where
  "join sep [] = []"
| "join sep [p] = p"
| "join sep (p # q # ps) = p @ sep @ join sep (q # ps)"

section \<open>The document, as the parser queries it\<close>

text \<open>
  The HTML tree is read through a handful of queries of the parsing library; the model
  is their answers. A table is the list of its rows (\<open>find_all("tr")\<close>), a row the list of
  its cells (\<open>find_all(["td", "th"])\<close>), a cell its stripped text and the \<open>href\<close> of its
  first anchor that has one. The grid container, when the page has one, is the list of its
  columns; a column is the stripped text of its first paragraph, when it has one, and its
  anchors of class \<open>shift\<close>; an anchor is its class list, the stripped text of its first
  bold element, its stripped full text and its \<open>href\<close>.
\<close>

record cell =
  cell_text :: string
  cell_href :: "string option"

type_synonym row = "cell list"
type_synonym table = "row list"

record link =
  lnk_classes :: "string list"
  lnk_bold :: "string option"
  lnk_text :: string
  lnk_href :: "string option"

record column =
  col_header :: "string option"
  col_links :: "link list"

record document =
  doc_tables :: "table list"
  doc_grid :: "column list option"

section \<open>Table strategy\<close>

record hmap =
  hm_day :: "nat option"
  hm_time :: "nat option"
  hm_committee :: "nat option"
  hm_slots :: "nat option"
  hm_description :: "nat option"

definition empty_hmap :: hmap where
  "empty_hmap = \<lparr>hm_day = None, hm_time = None, hm_committee = None, hm_slots = None,
                   hm_description = None\<rparr>"

definition any_in :: "string list \<Rightarrow> string \<Rightarrow> bool" where
  "any_in ks txt = list_ex (\<lambda>k. contains txt k) ks"

definition detect_cell :: "hmap \<Rightarrow> nat \<times> cell \<Rightarrow> hmap" where
  "detect_cell mapping p =
     (let idx = fst p; txt = lower (cell_text (snd p)) in
      if any_in [''day'', ''date''] txt then mapping\<lparr>hm_day := Some idx\<rparr>
      else if any_in [''time'', ''hour'', ''when''] txt then mapping\<lparr>hm_time := Some idx\<rparr>
      else if any_in [''committee'', ''squad'', ''dept'', ''area'', ''job''] txt
        then mapping\<lparr>hm_committee := Some idx\<rparr>
      else if any_in [''slot'', ''open'', ''avail'', ''remain''] txt
        then mapping\<lparr>hm_slots := Some idx\<rparr>
      else if any_in [''desc'', ''detail'', ''note'', ''info''] txt
        then mapping\<lparr>hm_description := Some idx\<rparr>
      else mapping)"

definition detect_headers :: "row \<Rightarrow> hmap" where
  "detect_headers header_row = foldl detect_cell empty_hmap (enumerate 0 header_row)"

text \<open>Python truth of a value that is \<open>None\<close> or a string, and \<open>x or ""\<close>.\<close>

definition truthy :: "string option \<Rightarrow> bool" where
  "truthy v = (case v of None \<Rightarrow> False | Some s \<Rightarrow> s \<noteq> [])"

definition or_empty :: "string option \<Rightarrow> string" where
  "or_empty v = (case v of None \<Rightarrow> [] | Some s \<Rightarrow> s)"

text \<open>One round of the loop over the cell texts (lines 272 to 282).\<close>

definition scan_cell ::
  "string option \<times> string \<times> string \<times> string \<Rightarrow> string \<Rightarrow>
   string option \<times> string \<times> string \<times> string" where
  "scan_cell st txt =
     (case st of (day, time_raw, committee, slots) \<Rightarrow>
      (let day = (if \<not> truthy day \<and> is_day_name txt then Some (normalize_day txt) else day);
           time_raw = (if time_raw = [] \<and> search_time txt \<noteq> None then txt else time_raw);
           committee =
             (if committee = [] then
                (case fuzzy_committee txt of
                   Some cm \<Rightarrow> if cm \<noteq> [] then cm else committee
                 | None \<Rightarrow> committee)
              else committee);
           slots = (if slots = [] \<and> strip txt \<noteq> [] \<and> list_all is_digit (strip txt)
                    then strip txt else slots)
       in (day, time_raw, committee, slots)))"

text \<open>The loop over the cells that looks for the sign-up link (lines 284 to 290).\<close>

fun find_signup :: "cell list \<Rightarrow> string" where
  "find_signup [] = []"
| "find_signup (c # cs) =
     (case cell_href c of
        None \<Rightarrow> find_signup cs
      | Some href \<Rightarrow>
          if contains (lower href) ''signup'' \<or> contains (lower href) ''shift'' \<or>
             startswith href ''http''
          then (if startswith href ''http'' then href else BASE @ href)
          else find_signup cs)"

text \<open>
  \<open>random.randint(1, 6)\<close>: the generator is a sequence of numbers given from outside and
  the number of draws made so far; a draw lies between 1 and 6.
\<close>

definition randint_1_6 :: "(nat \<Rightarrow> nat) \<Rightarrow> nat \<Rightarrow> nat" where
  "randint_1_6 rnd k = 1 + rnd k mod 6"

text \<open>
  The start values of \<open>_extract_shift\<close> (lines 258 to 270): the current day and empty
  texts, or, when the header map is not empty, what the mapped columns hold. The
  components are day, time, committee, slots and description.
\<close>

definition header_fields ::
  "hmap \<Rightarrow> string option \<Rightarrow> string list \<Rightarrow>
   string option \<times> string \<times> string \<times> string \<times> string" where
  "header_fields hm current_day texts =
     (if hm \<noteq> empty_hmap then
        (if truthy current_day then current_day else safe_idx texts (hm_day hm),
         or_empty (safe_idx texts (hm_time hm)),
         or_empty (safe_idx texts (hm_committee hm)),
         or_empty (safe_idx texts (hm_slots hm)),
         or_empty (safe_idx texts (hm_description hm)))
      else (current_day, [], [], [], []))"

text \<open>
  \<open>_extract_shift\<close>. The result is the record, or \<open>None\<close> for a rejected row, and the
  number of draws made after the call.
\<close>

definition extract_shift ::
  "(nat \<Rightarrow> nat) \<Rightarrow> nat \<Rightarrow> cell list \<Rightarrow> hmap \<Rightarrow> string option \<Rightarrow> nat \<Rightarrow> nat \<Rightarrow>
   shift option \<times> nat" where
  "extract_shift rnd k cells hm current_day tbl row =
     (let texts = map cell_text cells in
      case header_fields hm current_day texts of
        (day, time_raw, committee, slots, description) \<Rightarrow>
      case foldl scan_cell (day, time_raw, committee, slots) texts of
        (day, time_raw, committee, slots) \<Rightarrow>
        (let signup_url = find_signup cells;
             description =
               (if description = []
                then join '' | ''
                       (filter (\<lambda>t. t \<noteq> [] \<and> Some t \<noteq> day \<and> t \<noteq> time_raw) texts)
                else description)
         in if time_raw = [] \<and> committee = [] then (None, k)
            else
              (Some \<lparr>sh_id = None,
                     sh_day = Some (if truthy day then or_empty day else ''Unknown''),
                     sh_date = None,
                     sh_time_raw = Some time_raw,
                     sh_time_slot = Some (classify_time time_raw),
                     sh_committee = Some (if committee \<noteq> [] then committee else ''General''),
                     sh_description = take 200 description,
                     sh_signup_url = signup_url,
                     sh_slots = Some (JStr (if slots \<noteq> [] then slots
                                            else str_nat (randint_1_6 rnd k))),
                     sh_status = None,
                     sh_is_carrot = None,
                     sh_source_table = Inl tbl,
                     sh_source_row = row\<rparr>,
               if slots \<noteq> [] then k else Suc k)))"

text \<open>
  The loop over the data rows of one table (lines 221 to 237). The state that outlives a
  row is the current day, the id counter, the number of draws and the list of shifts.
\<close>

fun parse_rows ::
  "(nat \<Rightarrow> nat) \<Rightarrow> hmap \<Rightarrow> nat \<Rightarrow> nat \<Rightarrow> row list \<Rightarrow> string option \<Rightarrow>
   nat \<times> nat \<times> shift list \<Rightarrow> nat \<times> nat \<times> shift list" where
  "parse_rows rnd hm tbl row_idx [] current_day st = st"
| "parse_rows rnd hm tbl row_idx (cells # rows) current_day (counter, k, shifts) =
     (let texts = map cell_text cells in
      if length cells = 1 \<and> is_day_name (texts ! 0) then
        parse_rows rnd hm tbl (Suc row_idx) rows (Some (normalize_day (texts ! 0)))
          (counter, k, shifts)
      else if length cells < 2 then
        parse_rows rnd hm tbl (Suc row_idx) rows current_day (counter, k, shifts)
      else
        (case extract_shift rnd k cells hm current_day tbl row_idx of
           (None, k') \<Rightarrow>
             parse_rows rnd hm tbl (Suc row_idx) rows current_day (counter, k', shifts)
         | (Some sh, k') \<Rightarrow>
             parse_rows rnd hm tbl (Suc row_idx) rows current_day
               (Suc counter, k', shifts @ [sh\<lparr>sh_id := Some (shift_id (Suc counter))\<rparr>])))"

text \<open>The loop over the tables (lines 214 to 219).\<close>

fun parse_tables ::
  "(nat \<Rightarrow> nat) \<Rightarrow> nat \<Rightarrow> table list \<Rightarrow> nat \<times> nat \<times> shift list \<Rightarrow>
   nat \<times> nat \<times> shift list" where
  "parse_tables rnd table_idx [] st = st"
| "parse_tables rnd table_idx ([] # tables) st = parse_tables rnd (Suc table_idx) tables st"
| "parse_tables rnd table_idx ((header # rows) # tables) st =
     parse_tables rnd (Suc table_idx) tables
       (parse_rows rnd (detect_headers header) table_idx 1 rows None st)"

definition parse_shifts :: "(nat \<Rightarrow> nat) \<Rightarrow> table list \<Rightarrow> shift list" where
  "parse_shifts rnd tables = snd (snd (parse_tables rnd 0 tables (0, 0, [])))"

section \<open>Grid strategy\<close>

text \<open>
  \<^verbatim>\<open>re.match(r"(Mon|Tue|Wed|Thu|Fri|Sat|Sun)\s*(\d{1,2}/\d{1,2}/\d{4})", header_text)\<close>.
  \<open>match_date_with n1 n2\<close> is the date part with \<open>n1\<close> and \<open>n2\<close> digits in the first two
  numbers; the matcher tries two digits before one, the first number outermost.
\<close>

definition match_date_with :: "nat \<Rightarrow> nat \<Rightarrow> string \<Rightarrow> string option" where
  "match_date_with n1 n2 s =
     (let len = n1 + 1 + n2 + 1 + 4; w = take len s in
      if len \<le> length s \<and>
         list_all is_digit (take n1 w) \<and> w ! n1 = CHR ''/'' \<and>
         list_all is_digit (take n2 (drop (n1 + 1) w)) \<and> w ! (n1 + 1 + n2) = CHR ''/'' \<and>
         list_all is_digit (drop (n1 + 1 + n2 + 1) w)
      then Some w else None)"

fun first_some :: "'a option list \<Rightarrow> 'a option" where
  "first_some [] = None"
| "first_some (Some x # _) = Some x"
| "first_some (None # xs) = first_some xs"

definition match_date :: "string \<Rightarrow> string option" where
  "match_date s =
     first_some [match_date_with 2 2 s, match_date_with 2 1 s,
                 match_date_with 1 2 s, match_date_with 1 1 s]"

definition match_day_header :: "string \<Rightarrow> (string \<times> string) option" where
  "match_day_header header_text =
     (case find (startswith header_text)
             [''Mon'', ''Tue'', ''Wed'', ''Thu'', ''Fri'', ''Sat'', ''Sun''] of
        None \<Rightarrow> None
      | Some day_abbr \<Rightarrow>
          (case match_date (dropWhile is_space (drop 3 header_text)) of
             None \<Rightarrow> None
           | Some date_str \<Rightarrow> Some (day_abbr, date_str)))"

text \<open>\<open>s.replace(pat, "")\<close> for a pattern that is not empty.\<close>

function remove_all :: "string \<Rightarrow> string \<Rightarrow> string" where
  "remove_all pat [] = []"
| "remove_all pat (c # cs) =
     (if pat \<noteq> [] \<and> startswith (c # cs) pat
      then remove_all pat (drop (length pat) (c # cs))
      else c # remove_all pat cs)"
  by pat_completeness auto
termination
  by (relation "measure (\<lambda>(pat, s). length s)") auto

text \<open>
  The carrot sign and the glyph ranges that the source removes, by code point. All of them
  lie above the range of the model, where these two steps remove nothing.
\<close>

definition is_carrot_sign :: "char \<Rightarrow> bool" where
  "is_carrot_sign c = ((of_char c :: int) = 0x1F955)"

definition is_glyph :: "char \<Rightarrow> bool" where
  "is_glyph c =
     (let n = (of_char c :: int) in
      (0x1F300 \<le> n \<and> n \<le> 0x1FAFF) \<or> (0x2702 \<le> n \<and> n \<le> 0x27B0) \<or>
      (0xFE00 \<le> n \<and> n \<le> 0xFE0F) \<or> n = 0x200D \<or>
      (0x2600 \<le> n \<and> n \<le> 0x26FF) \<or> (0x2700 \<le> n \<and> n \<le> 0x27BF))"

definition strip_stars :: "string \<Rightarrow> string" where
  "strip_stars s =
     (if startswith s ''*'' then dropWhile is_space (dropWhile (\<lambda>c. c = CHR ''*'') s) else s)"

definition clean_committee :: "string \<Rightarrow> string \<Rightarrow> string" where
  "clean_committee full_text time_raw =
     (let committee_text = full_text;
          committee_text =
            (if time_raw \<noteq> [] then remove_all time_raw committee_text else committee_text);
          committee_text = strip (filter (\<lambda>c. \<not> is_carrot_sign c) committee_text);
          committee_clean = strip (filter (\<lambda>c. \<not> is_glyph c) committee_text);
          committee_clean = strip (strip_stars committee_clean)
      in committee_clean)"

text \<open>
  The separator of the description parts is a space, an em dash and a space. The em dash
  (U+2014) is outside the range of the model and is written as its three UTF-8 bytes.
\<close>

definition dash_sep :: string where
  "dash_sep = [CHR 0x20, CHR 0xE2, CHR 0x80, CHR 0x94, CHR 0x20]"

text \<open>The body of the loop over the links of a column (lines 396 to 462).\<close>

definition parse_link :: "string \<Rightarrow> string \<Rightarrow> nat \<Rightarrow> link \<Rightarrow> shift" where
  "parse_link day date_str counter lnk =
     (let classes = lnk_classes lnk;
          is_unavail = (''unavail'' \<in> set classes);
          has_worker = (''worker'' \<in> set classes);
          is_carrot = (''carrot'' \<in> set classes);
          time_raw = or_empty (lnk_bold lnk);
          committee_clean = clean_committee (lnk_text lnk) time_raw;
          href = strip (or_empty (lnk_href lnk));
          signup_url =
            (if href \<noteq> [] then (if startswith href ''http'' then href else BASE @ href)
             else []);
          status = (if is_unavail then ''unavailable''
                    else if has_worker then ''filled'' else ''available'');
          slots = (if is_unavail then ''0'' else if has_worker then ''0'' else ''1'');
          desc_parts =
            (if is_carrot then [''Carrot shift (extra credit)''] else []) @
            (if is_unavail then [''Currently unavailable''] else []) @
            (if has_worker then [''Worker assigned''] else [])
      in \<lparr>sh_id = Some (shift_id counter),
          sh_day = Some day,
          sh_date = Some date_str,
          sh_time_raw = Some time_raw,
          sh_time_slot = Some (classify_time time_raw),
          sh_committee = Some (if committee_clean \<noteq> [] then committee_clean else ''General''),
          sh_description = join dash_sep desc_parts,
          sh_signup_url = signup_url,
          sh_slots = Some (JStr slots),
          sh_status = Some status,
          sh_is_carrot = Some is_carrot,
          sh_source_table = Inr ''grid-container'',
          sh_source_row = counter\<rparr>)"

fun parse_links :: "string \<Rightarrow> string \<Rightarrow> link list \<Rightarrow> nat \<times> shift list \<Rightarrow> nat \<times> shift list" where
  "parse_links day date_str [] st = st"
| "parse_links day date_str (lnk # links) (counter, shifts) =
     parse_links day date_str links
       (Suc counter, shifts @ [parse_link day date_str (Suc counter) lnk])"

text \<open>The day and the date of a column, from the text of its header (lines 381 to 391).\<close>

definition header_day_date :: "string \<Rightarrow> string \<times> string" where
  "header_day_date header_text =
     (case match_day_header header_text of
        Some (day_abbr, date_str) \<Rightarrow> (normalize_day day_abbr, date_str)
      | None \<Rightarrow> (''Unknown'', []))"

text \<open>The body of the loop over the columns: a column with no paragraph is passed over.\<close>

definition parse_column :: "column \<Rightarrow> nat \<times> shift list \<Rightarrow> nat \<times> shift list" where
  "parse_column col st =
     (case col_header col of
        None \<Rightarrow> st
      | Some header_text \<Rightarrow>
          (case header_day_date header_text of
             (day, date_str) \<Rightarrow> parse_links day date_str (col_links col) st))"

definition parse_column_layout :: "document \<Rightarrow> shift list" where
  "parse_column_layout soup =
     (case doc_grid soup of
        None \<Rightarrow> []
      | Some columns \<Rightarrow> snd (foldl (\<lambda>st col. parse_column col st) (0, []) columns))"

section \<open>Extraction coordinator\<close>

text \<open>
  \<open>get_shifts\<close> from the point where the page has been fetched with status 200 and parsed
  (lines 188 to 201); \<open>html\<close> and the debug lines written so far come from the part before.
  The caller \<open>api_login\<close> serves the parsed shifts when the call succeeded with at least one
  shift and sample data otherwise.
\<close>

record shifts_result =
  res_success :: bool
  res_html :: string
  res_parsed_shifts :: "shift list"
  res_message :: string
  res_debug :: "string list"

definition get_shifts ::
  "(nat \<Rightarrow> nat) \<Rightarrow> string \<Rightarrow> document \<Rightarrow> string list \<Rightarrow> shifts_result" where
  "get_shifts rnd html soup debug_info =
     (let parsed = parse_shifts rnd (doc_tables soup);
          debug_info =
            debug_info @ [''Parsed '' @ str_nat (length parsed) @ '' shifts from tables''];
          (parsed, debug_info) =
            (if parsed = [] then
               (let parsed = parse_column_layout soup in
                (parsed,
                 debug_info @
                   [''Parsed '' @ str_nat (length parsed) @ '' shifts from column layout'']))
             else (parsed, debug_info))
      in \<lparr>res_success = True, res_html = html, res_parsed_shifts = parsed,
          res_message = ''OK'', res_debug = debug_info\<rparr>)"

definition api_login_source :: "shifts_result \<Rightarrow> string" where
  "api_login_source shift_result =
     (if res_success shift_result \<and> res_parsed_shifts shift_result \<noteq> []
      then ''live'' else ''mock'')"

section \<open>Preferences and the scorer\<close>

text \<open>
  What a \<open>for\<close> over a value iterates: the items of a list, the characters of a string,
  the keys of a dict; anything else is not iterable.
\<close>

fun py_iter :: "json \<Rightarrow> error + json list" where
  "py_iter (JList xs) = Inr xs"
| "py_iter (JStr s) = Inr (map (\<lambda>c. JStr [c]) s)"
| "py_iter (JObj kvs) = Inr (map (\<lambda>kv. JStr (fst kv)) kvs)"
| "py_iter _ = Inl TypeError"

text \<open>\<open>x.lower()\<close>: only a string has the method.\<close>

fun py_lower :: "json \<Rightarrow> error + string" where
  "py_lower (JStr s) = Inr (lower s)"
| "py_lower _ = Inl AttributeError"

fun lower_each :: "json list \<Rightarrow> error + string list" where
  "lower_each [] = Inr []"
| "lower_each (x # xs) =
     (case py_lower x of
        Inl e \<Rightarrow> Inl e
      | Inr l \<Rightarrow> (case lower_each xs of Inl e \<Rightarrow> Inl e | Inr ls \<Rightarrow> Inr (l # ls)))"

text \<open>The comprehension \<^verbatim>\<open>[x.lower() for x in v]\<close>.\<close>

definition lower_all :: "json \<Rightarrow> error + string list" where
  "lower_all v = (case py_iter v of Inl e \<Rightarrow> Inl e | Inr xs \<Rightarrow> lower_each xs)"

text \<open>\<open>preferences.get(key, [])\<close>.\<close>

definition get_pref :: "(string \<times> json) list \<Rightarrow> string \<Rightarrow> json" where
  "get_pref preferences key = (case map_of preferences key of None \<Rightarrow> JList [] | Some v \<Rightarrow> v)"

record matcher =
  m_days :: "string list"
  m_times :: "string list"
  m_committees :: json
  m_excluded :: "string list"

text \<open>\<open>ShiftMatcher.__init__\<close>; the committees are stored as they come.\<close>

definition ShiftMatcher_init :: "(string \<times> json) list \<Rightarrow> error + matcher" where
  "ShiftMatcher_init preferences =
     (case lower_all (get_pref preferences ''days'') of
        Inl e \<Rightarrow> Inl e
      | Inr days \<Rightarrow>
     (case lower_all (get_pref preferences ''times'') of
        Inl e \<Rightarrow> Inl e
      | Inr times' \<Rightarrow>
     (case lower_all (get_pref preferences ''excludedCommittees'') of
        Inl e \<Rightarrow> Inl e
      | Inr excluded \<Rightarrow>
          Inr \<lparr>m_days = days, m_times = times',
               m_committees = get_pref preferences ''committees'',
               m_excluded = excluded\<rparr>)))"

text \<open>
  \<open>int(s)\<close> for a string. White space around is skipped: the ASCII white space
  (0x09 to 0x0D and the blank) and, in a string that is not ASCII, the other white space
  characters; the separators 0x1C to 0x1F, which \<open>str.strip\<close> removes, are not skipped.
  One sign may lead, then digits, with single underscores allowed between digits. A
  string of more than 4300 digits is refused (the interpreter's default limit).
  \<open>None\<close> is the \<open>ValueError\<close>.
\<close>

definition is_int_space :: "char \<Rightarrow> bool" where
  "is_int_space c = (c \<in> set [CHR 0x09, CHR 0x0A, CHR 0x0B, CHR 0x0C, CHR 0x0D, CHR 0x20,
                                CHR 0x85, CHR 0xA0])"

definition int_strip :: "string \<Rightarrow> string" where
  "int_strip s = rev (dropWhile is_int_space (rev (dropWhile is_int_space s)))"

definition max_str_digits :: nat where
  "max_str_digits = 4300"

fun underscores_ok :: "string \<Rightarrow> bool" where
  "underscores_ok [] = True"
| "underscores_ok [c] = is_digit c"
| "underscores_ok (c # d # cs) =
     ((is_digit c \<or> (c = CHR ''_'' \<and> is_digit d)) \<and> underscores_ok (d # cs))"

definition int_body :: "string \<Rightarrow> nat option" where
  "int_body b =
     (let digits = filter (\<lambda>c. c \<noteq> CHR ''_'') b in
      if b \<noteq> [] \<and> is_digit (hd b) \<and> underscores_ok b \<and> length digits \<le> max_str_digits
      then Some (dec_val digits) else None)"

definition py_int :: "string \<Rightarrow> int option" where
  "py_int s =
     (case int_strip s of
        [] \<Rightarrow> None
      | c # cs \<Rightarrow>
          if c = CHR ''-'' then map_option (\<lambda>n. - int n) (int_body cs)
          else if c = CHR ''+'' then map_option int (int_body cs)
          else map_option int (int_body (c # cs)))"

text \<open>
  \<open>int(v)\<close> for any value: a string is parsed, an integer is itself, a boolean is 0 or 1,
  a finite float is cut towards zero, an infinity raises \<open>OverflowError\<close>, not-a-number
  raises \<open>ValueError\<close>, and \<open>None\<close>, a list and a dict raise \<open>TypeError\<close>.
\<close>

definition trunc_float :: "int \<Rightarrow> int \<Rightarrow> int" where
  "trunc_float m e =
     (if 0 \<le> e then m * 2 ^ nat e
      else if 0 \<le> m then m div 2 ^ nat (- e)
      else - ((- m) div 2 ^ nat (- e)))"

fun int_of_json :: "json \<Rightarrow> error + int" where
  "int_of_json (JStr s) = (case py_int s of Some n \<Rightarrow> Inr n | None \<Rightarrow> Inl ValueError)"
| "int_of_json (JNum n) = Inr n"
| "int_of_json (JBool b) = Inr (if b then 1 else 0)"
| "int_of_json (JFloat (FFinite m e)) = Inr (trunc_float m e)"
| "int_of_json (JFloat (FInf negative)) = Inl OverflowError"
| "int_of_json (JFloat FNaN) = Inl ValueError"
| "int_of_json JNull = Inl TypeError"
| "int_of_json (JList xs) = Inl TypeError"
| "int_of_json (JObj kvs) = Inl TypeError"

text \<open>
  An integer inside an f-string: the conversion to decimal digits raises \<open>ValueError\<close>
  (here \<open>None\<close>) for more than 4300 digits.
\<close>

definition fmt_int :: "int \<Rightarrow> string option" where
  "fmt_int i =
     (if length (str_nat (nat \<bar>i\<bar>)) > max_str_digits then None else Some (str_int i))"

text \<open>
  The breakdown is a dict, which keeps the order in which its keys were first assigned.
\<close>

fun dict_set :: "(string \<times> string) list \<Rightarrow> string \<Rightarrow> string \<Rightarrow> (string \<times> string) list" where
  "dict_set [] k v = [(k, v)]"
| "dict_set (p # ps) k v = (if fst p = k then (k, v) # ps else p # dict_set ps k v)"

text \<open>\<open>xs.index(x)\<close> for an \<open>x\<close> that is in the list.\<close>

fun index_of :: "'a \<Rightarrow> 'a list \<Rightarrow> nat" where
  "index_of x [] = 0"
| "index_of x (y # ys) = (if x = y then 0 else Suc (index_of x ys))"

text \<open>
  \<open>ShiftMatcher.score\<close> is a sequence of five sections, each of which updates the running
  score \<open>base\<close> and the breakdown; each section is a function on that pair.
\<close>

type_synonym tally = "int \<times> (string \<times> string) list"

definition committee_term :: "string list \<Rightarrow> shift \<Rightarrow> tally \<Rightarrow> tally" where
  "committee_term comm_lower shift st =
     (case st of (base, breakdown) \<Rightarrow>
      (let committee = or_empty (sh_committee shift) in
       if comm_lower \<noteq> [] \<and> lower committee \<in> set comm_lower then
         (let rank = index_of (lower committee) comm_lower in
          if rank = 0 then
            (base + 10,
             dict_set breakdown ''committee'' (''Top choice: '' @ committee @ '' (+10%)''))
          else
            (let penalty = rank * 5 in
             (base - int penalty,
              dict_set breakdown ''committee''
                (''Rank #'' @ str_nat (rank + 1) @ '': '' @ committee @ '' (-'' @
                 str_nat penalty @ ''%)''))))
       else if comm_lower \<noteq> [] then
         (base - 25,
          dict_set breakdown ''committee'' (committee @ '' not in your preferences (-25%)''))
       else (base, dict_set breakdown ''committee'' ''No committee preference set'')))"

definition day_term :: "matcher \<Rightarrow> shift \<Rightarrow> tally \<Rightarrow> tally" where
  "day_term m shift st =
     (case st of (base, breakdown) \<Rightarrow>
      (let day = lower (or_empty (sh_day shift)) in
       if m_days m \<noteq> [] then
         (if day \<in> set (m_days m) then
            (base, dict_set breakdown ''day'' (or_empty (sh_day shift) @ '' is a preferred day''))
          else
            (base - 20,
             dict_set breakdown ''day'' (or_empty (sh_day shift) @ '' is not preferred (-20%)'')))
       else (base, dict_set breakdown ''day'' ''No day preference set'')))"

definition time_term :: "matcher \<Rightarrow> shift \<Rightarrow> tally \<Rightarrow> tally" where
  "time_term m shift st =
     (case st of (base, breakdown) \<Rightarrow>
      (let time_slot = lower (or_empty (sh_time_slot shift)) in
       if m_times m \<noteq> [] then
         (if time_slot \<in> set (m_times m) then
            (base,
             dict_set breakdown ''time'' (or_empty (sh_time_slot shift) @ '' is a preferred time''))
          else
            (base - 15,
             dict_set breakdown ''time''
               (or_empty (sh_time_slot shift) @ '' is not preferred (-15%)'')))
       else (base, dict_set breakdown ''time'' ''No time preference set'')))"

text \<open>
  The slots section, \<^verbatim>\<open>int(shift.get("slots", 0))\<close> and the three branches in a
  \<open>try\<close> with \<^verbatim>\<open>except (ValueError, TypeError)\<close>. An absent key gives the integer 0.
  The score is changed before the entry is formatted, so a \<open>ValueError\<close> of the
  formatting leaves the change in place. Any other exception leaves the scorer.
\<close>

definition slots_value :: "shift \<Rightarrow> error + int" where
  "slots_value shift = (case sh_slots shift of None \<Rightarrow> Inr 0 | Some v \<Rightarrow> int_of_json v)"

definition slots_term :: "shift \<Rightarrow> tally \<Rightarrow> error + tally" where
  "slots_term shift st =
     (case st of (base, breakdown) \<Rightarrow>
      (case slots_value shift of
         Inr slot_n \<Rightarrow>
           if slot_n > 3 then
             (case fmt_int slot_n of
                Some digits \<Rightarrow>
                  Inr (base + 5,
                       dict_set breakdown ''slots'' (digits @ '' slots available (+5%)''))
              | None \<Rightarrow> Inr (base + 5, dict_set breakdown ''slots'' ''Slots unknown''))
           else if slot_n = 1 then
             Inr (base - 5, dict_set breakdown ''slots'' ''Only 1 slot left (-5%)'')
           else
             (case fmt_int slot_n of
                Some digits \<Rightarrow>
                  Inr (base, dict_set breakdown ''slots'' (digits @ '' slots available''))
              | None \<Rightarrow> Inr (base, dict_set breakdown ''slots'' ''Slots unknown''))
       | Inl e \<Rightarrow>
           if e = ValueError \<or> e = TypeError
           then Inr (base, dict_set breakdown ''slots'' ''Slots unknown'')
           else Inl e))"

text \<open>The hour of the late evening section (lines 540 to 543), from groups 1 and 3.\<close>

definition late_hour :: "string \<Rightarrow> string \<Rightarrow> nat" where
  "late_hour g1 g3 =
     (let hour = dec_val g1;
          ampm = upper g3;
          hour = (if ampm = ''PM'' \<and> hour \<noteq> 12 then hour + 12 else hour)
      in hour)"

definition late_term :: "shift \<Rightarrow> tally \<Rightarrow> tally" where
  "late_term shift st =
     (case st of (base, breakdown) \<Rightarrow>
      (case search_time (or_empty (sh_time_raw shift)) of
         Some (g1, g3) \<Rightarrow>
           if late_hour g1 g3 \<ge> 21 then
             (base - 10, dict_set breakdown ''late'' ''Late evening shift (-10%)'')
           else (base, breakdown)
       | None \<Rightarrow> (base, breakdown)))"

record scored =
  sc_shift :: shift
  sc_score :: int
  sc_breakdown :: "(string \<times> string) list"

definition score :: "matcher \<Rightarrow> shift \<Rightarrow> error + scored" where
  "score m shift =
     (case lower_all (m_committees m) of
        Inl e \<Rightarrow> Inl e
      | Inr comm_lower \<Rightarrow>
          (let st = (100, []);
               st = committee_term comm_lower shift st;
               st = day_term m shift st;
               st = time_term m shift st
           in case slots_term shift st of
                Inl e \<Rightarrow> Inl e
              | Inr st \<Rightarrow>
                  (let st = late_term shift st
                   in Inr \<lparr>sc_shift = shift, sc_score = max 0 (min 120 (fst st)),
                           sc_breakdown = snd st\<rparr>)))"

text \<open>The comprehension \<^verbatim>\<open>[self.score(s) for s in filtered]\<close> stops at the first exception.\<close>

fun score_each :: "matcher \<Rightarrow> shift list \<Rightarrow> error + scored list" where
  "score_each m [] = Inr []"
| "score_each m (s # ss) =
     (case score m s of
        Inl e \<Rightarrow> Inl e
      | Inr r \<Rightarrow> (case score_each m ss of Inl e \<Rightarrow> Inl e | Inr rs \<Rightarrow> Inr (r # rs)))"

text \<open>
  \<^verbatim>\<open>scored.sort(key=lambda x: x["score"], reverse=True)\<close>: Python's sort is stable, also
  with \<open>reverse=True\<close>, so the result is the stable sort by falling score, which the
  insertion sort \<open>sort_key\<close> on the negated score computes.
\<close>

definition sort_by_score_desc :: "scored list \<Rightarrow> scored list" where
  "sort_by_score_desc rs = sort_key (\<lambda>r. - sc_score r) rs"

definition rank :: "matcher \<Rightarrow> shift list \<Rightarrow> error + scored list" where
  "rank m shifts =
     (let filtered = filter (\<lambda>s. lower (or_empty (sh_committee s)) \<notin> set (m_excluded m)) shifts
      in case score_each m filtered of
           Inl e \<Rightarrow> Inl e
         | Inr scored \<Rightarrow> Inr (sort_by_score_desc scored))"

section \<open>Notions of the specification\<close>

text \<open>
  These follow the words of the specification, not the code. \<open>time_prefix s h ap\<close>: the
  string \<open>s\<close> begins with a clock time of the shape H:MM AM/PM, whose hour digits are \<open>h\<close>
  and whose AM/PM letters are \<open>ap\<close>; \<open>occurs_at t i h ap\<close>: such a time begins at
  position \<open>i\<close> of \<open>t\<close>.
\<close>

definition time_prefix :: "string \<Rightarrow> string \<Rightarrow> string \<Rightarrow> bool" where
  "time_prefix s h ap \<longleftrightarrow>
     (\<exists>m1 m2 ws a m post.
        s = h @ CHR '':'' # m1 # m2 # ws @ a # m # post \<and>
        (length h = 1 \<or> length h = 2) \<and> list_all is_digit h \<and>
        is_digit m1 \<and> is_digit m2 \<and> list_all is_space ws \<and>
        a \<in> set ''APap'' \<and> m \<in> set ''Mm'' \<and> ap = [a, m])"

definition occurs_at :: "string \<Rightarrow> nat \<Rightarrow> string \<Rightarrow> string \<Rightarrow> bool" where
  "occurs_at t i h ap \<longleftrightarrow> i \<le> length t \<and> time_prefix (drop i t) h ap"

text \<open>
  The hour on the 24-hour clock: a PM hour other than 12 gains 12, 12 PM stays 12,
  12 AM becomes 0. The buckets: below 12, below 17, below 21, the rest.
\<close>

definition spec_hour24 :: "nat \<Rightarrow> bool \<Rightarrow> nat" where
  "spec_hour24 h pm = (if pm then (if h = 12 then 12 else h + 12) else (if h = 12 then 0 else h))"

definition spec_bucket :: "nat \<Rightarrow> string" where
  "spec_bucket hour =
     (if hour < 12 then ''Morning'' else if hour < 17 then ''Afternoon''
      else if hour < 21 then ''Evening'' else ''Overnight'')"

text \<open>
  The hour that \<open>_classify_time\<close> and the hour that the late evening section of the scorer
  derive from a time text; \<open>None\<close> when the pattern finds no time in it.
\<close>

definition classify_time_hour :: "string \<Rightarrow> nat option" where
  "classify_time_hour time_raw =
     map_option (\<lambda>(g1, g3). classify_hour g1 g3) (search_time time_raw)"

definition score_late_hour :: "string \<Rightarrow> nat option" where
  "score_late_hour time_raw =
     map_option (\<lambda>(g1, g3). late_hour g1 g3) (search_time time_raw)"

text \<open>
  A record is excluded when its category equals, letter case aside, an entry of the
  excluded categories of the preferences.
\<close>

definition excluded_by :: "string list \<Rightarrow> shift \<Rightarrow> bool" where
  "excluded_by excl s \<longleftrightarrow> (\<exists>e\<in>set excl. lower (or_empty (sh_committee s)) = lower e)"

text \<open>
  The links of a grid in document order, each with the day and the date of its column;
  a column that has no paragraph gives none.
\<close>

definition column_links :: "column \<Rightarrow> (string \<times> string \<times> link) list" where
  "column_links col =
     (case col_header col of
        None \<Rightarrow> []
      | Some header_text \<Rightarrow>
          map (\<lambda>lnk. (fst (header_day_date header_text), snd (header_day_date header_text), lnk))
            (col_links col))"

definition grid_links :: "column list \<Rightarrow> (string \<times> string \<times> link) list" where
  "grid_links columns = concat (map column_links columns)"

text \<open>The ids of a list of shifts are the ordinals from 1 on, in the order of the list.\<close>

definition ids_ok :: "nat \<Rightarrow> shift list \<Rightarrow> bool" where
  "ids_ok counter shifts \<longleftrightarrow> map sh_id shifts = map (\<lambda>i. Some (shift_id i)) [1..<Suc counter]"

text \<open>The committee among the four values that the loop over the cell texts carries.\<close>

definition committee_of :: "string option \<times> string \<times> string \<times> string \<Rightarrow> string" where
  "committee_of st = fst (snd (snd st))"

section \<open>Example data\<close>

text \<open>
  A record, preferences with the matcher built from them, and a list of records; a table
  page, a grid page whose second column has no paragraph, and a page with neither rows
  nor grid.
\<close>

definition sample_shift :: shift where
  "sample_shift =
     \<lparr>sh_id = Some ''shift_001'', sh_day = Some ''Saturday'', sh_date = None,
      sh_time_raw = Some ''6:30pm'', sh_time_slot = Some ''Evening'',
      sh_committee = Some ''Produce'', sh_description = ''Produce'', sh_signup_url = [],
      sh_slots = Some (JStr ''1''), sh_status = None, sh_is_carrot = None,
      sh_source_table = Inl 0, sh_source_row = 1\<rparr>"

definition sample_prefs :: "(string \<times> json) list" where
  "sample_prefs =
     [(''days'', JList [JStr ''saturday'']), (''times'', JList [JStr ''evening'']),
      (''committees'', JList [JStr ''Produce'']),
      (''excludedCommittees'', JList [JStr ''CHECKOUT''])]"

definition sample_matcher :: matcher where
  "sample_matcher =
     \<lparr>m_days = [''saturday''], m_times = [''evening''],
      m_committees = JList [JStr ''Produce''], m_excluded = [''checkout'']\<rparr>"

definition sample_shifts :: "shift list" where
  "sample_shifts =
     [sample_shift\<lparr>sh_id := Some ''shift_001'', sh_day := Some ''Monday''\<rparr>,
      sample_shift\<lparr>sh_id := Some ''shift_002'', sh_committee := Some ''Checkout''\<rparr>,
      sample_shift\<lparr>sh_id := Some ''shift_003''\<rparr>,
      sample_shift\<lparr>sh_id := Some ''shift_004'', sh_day := Some ''Tuesday''\<rparr>]"

definition plain_cell :: "string \<Rightarrow> cell" where
  "plain_cell txt = \<lparr>cell_text = txt, cell_href = None\<rparr>"

definition table_page :: document where
  "table_page =
     \<lparr>doc_tables =
        [[map plain_cell [''Day'', ''Time'', ''Committee''],
          [plain_cell ''Monday'', plain_cell ''5:00PM'',
           \<lparr>cell_text = ''Checkout'', cell_href = Some ''/services/shift_claim/1/''\<rparr>],
          [plain_cell ''Tuesday''],
          [plain_cell ''x'', plain_cell []]]],
      doc_grid = None\<rparr>"

definition shift_link :: "string list \<Rightarrow> string \<Rightarrow> string \<Rightarrow> link" where
  "shift_link classes time_text name =
     \<lparr>lnk_classes = ''shift'' # classes, lnk_bold = Some time_text,
      lnk_text = time_text @ name, lnk_href = Some ''/services/shift_claim/7/''\<rparr>"

definition grid_page :: document where
  "grid_page =
     \<lparr>doc_tables = [],
      doc_grid = Some
        [\<lparr>col_header = Some ''Sat 2/14/2026'',
          col_links = [shift_link [''unavail''] ''6:30pm'' ''Bathroom'']\<rparr>,
         \<lparr>col_header = None, col_links = [shift_link [] ''7:00am'' ''Lost'']\<rparr>,
         \<lparr>col_header = Some ''Next week'',
          col_links = [shift_link [] ''9:45pm'' ''Office'',
                       shift_link [''worker''] ''8:00am'' ''Receiving'']\<rparr>]\<rparr>"

definition empty_page :: document where
  "empty_page = \<lparr>doc_tables = [[map plain_cell [''Day'', ''Time'']]], doc_grid = None\<rparr>"

section \<open>Properties\<close>

subsection \<open>The clock pattern finds the first time of the shape\<close>

lemma letter_not_space: "a \<in> set ''APap'' \<Longrightarrow> \<not> is_space a"
  by (auto simp: is_space_def)

lemma colon_not_digit: "\<not> is_digit (CHR '':'')"
  by (simp add: is_digit_def)

lemma match_time_tail_intro:
  assumes "is_digit m1" "is_digit m2" "list_all is_space ws" "a \<in> set ''APap''" "m \<in> set ''Mm''"
  shows "match_time_tail (CHR '':'' # m1 # m2 # ws @ a # m # post) = Some [a, m]"
proof -
  have "dropWhile is_space (ws @ a # m # post) = a # m # post"
    using assms(3) letter_not_space[OF assms(4)]
    by (simp add: list_all_iff)
  then show ?thesis using assms by simp
qed

lemma match_time_tail_elim:
  assumes "match_time_tail s = Some ap"
  shows "\<exists>m1 m2 ws a m post. s = CHR '':'' # m1 # m2 # ws @ a # m # post \<and>
           is_digit m1 \<and> is_digit m2 \<and> list_all is_space ws \<and>
           a \<in> set ''APap'' \<and> m \<in> set ''Mm'' \<and> ap = [a, m]"
proof -
  obtain c m1 m2 rest where s: "s = c # m1 # m2 # rest"
    using assms by (cases s rule: match_time_tail.cases) auto
  from assms s have c: "c = CHR '':''" and d: "is_digit m1" "is_digit m2"
    by (auto split: if_splits)
  from assms s c d obtain a m post where dw: "dropWhile is_space rest = a # m # post"
    and am: "a \<in> set ''APap''" "m \<in> set ''Mm''" "ap = [a, m]"
    by (auto split: if_splits list.splits)
  have "rest = takeWhile is_space rest @ a # m # post"
    using dw takeWhile_dropWhile_id[of is_space rest] by simp
  moreover have "list_all is_space (takeWhile is_space rest)"
    by (auto simp: list_all_iff dest: set_takeWhileD)
  ultimately show ?thesis using s c d am by blast
qed

lemma match_time_with_iff:
  "match_time_with n s = Some (h, ap) \<longleftrightarrow>
     (length h = n \<and> list_all is_digit h \<and> (\<exists>r. s = h @ r \<and> match_time_tail r = Some ap))"
proof
  assume a: "match_time_with n s = Some (h, ap)"
  then have n: "n \<le> length s" and dg: "list_all is_digit (take n s)"
    and h: "h = take n s" and t: "match_time_tail (drop n s) = Some ap"
    by (auto simp: match_time_with_def split: if_splits)
  have "s = h @ drop n s" using h by simp
  with n dg h t
  show "length h = n \<and> list_all is_digit h \<and> (\<exists>r. s = h @ r \<and> match_time_tail r = Some ap)"
    by (metis length_take min.absorb2)
next
  assume "length h = n \<and> list_all is_digit h \<and> (\<exists>r. s = h @ r \<and> match_time_tail r = Some ap)"
  then show "match_time_with n s = Some (h, ap)"
    by (auto simp: match_time_with_def)
qed

lemma match_time_at_iff: "match_time_at s = Some (h, ap) \<longleftrightarrow> time_prefix s h ap"
proof
  assume "match_time_at s = Some (h, ap)"
  then have "match_time_with 2 s = Some (h, ap) \<or> match_time_with 1 s = Some (h, ap)"
    by (auto simp: match_time_at_def split: option.splits)
  then obtain r where "length h = 1 \<or> length h = 2" "list_all is_digit h" "s = h @ r"
    "match_time_tail r = Some ap"
    by (auto simp: match_time_with_iff)
  then show "time_prefix s h ap"
    unfolding time_prefix_def using match_time_tail_elim[of r ap] by auto
next
  assume "time_prefix s h ap"
  then obtain m1 m2 ws a m post where
    s: "s = h @ CHR '':'' # m1 # m2 # ws @ a # m # post" and
    len: "length h = 1 \<or> length h = 2" and dg: "list_all is_digit h" and
    rest: "is_digit m1" "is_digit m2" "list_all is_space ws" "a \<in> set ''APap''" "m \<in> set ''Mm''"
    "ap = [a, m]"
    unfolding time_prefix_def by blast
  have tail: "match_time_tail (CHR '':'' # m1 # m2 # ws @ a # m # post) = Some ap"
    using match_time_tail_intro[OF rest(1-5)] rest(6) by simp
  from len show "match_time_at s = Some (h, ap)"
  proof
    assume l1: "length h = 1"
    then obtain d where h: "h = [d]" by (cases h) auto
    have "match_time_with 2 s = None"
      using s h colon_not_digit by (simp add: match_time_with_def)
    moreover have "match_time_with 1 s = Some (h, ap)"
      using s dg tail l1 by (auto simp: match_time_with_iff)
    ultimately show ?thesis by (simp add: match_time_at_def)
  next
    assume l2: "length h = 2"
    have "match_time_with 2 s = Some (h, ap)"
      using s dg tail l2 by (auto simp: match_time_with_iff)
    then show ?thesis by (simp add: match_time_at_def)
  qed
qed

lemma search_time_iff:
  "search_time t = Some r \<longleftrightarrow>
     (\<exists>i\<le>length t. match_time_at (drop i t) = Some r \<and> (\<forall>j<i. match_time_at (drop j t) = None))"
proof (induction t)
  case Nil
  then show ?case by simp
next
  case (Cons c cs)
  show ?case
  proof (cases "match_time_at (c # cs)")
    case (Some r')
    have "(\<exists>i\<le>length (c # cs). match_time_at (drop i (c # cs)) = Some r \<and>
            (\<forall>j<i. match_time_at (drop j (c # cs)) = None)) \<longleftrightarrow> r' = r"
    proof
      assume "\<exists>i\<le>length (c # cs). match_time_at (drop i (c # cs)) = Some r \<and>
            (\<forall>j<i. match_time_at (drop j (c # cs)) = None)"
      then obtain i where i: "match_time_at (drop i (c # cs)) = Some r"
        "\<forall>j<i. match_time_at (drop j (c # cs)) = None" by blast
      have "i = 0"
      proof (rule ccontr)
        assume "i \<noteq> 0"
        then have "match_time_at (drop 0 (c # cs)) = None" using i(2) by blast
        with Some show False by simp
      qed
      with i(1) Some show "r' = r" by simp
    next
      assume "r' = r"
      with Some have "match_time_at (drop 0 (c # cs)) = Some r" by simp
      then show "\<exists>i\<le>length (c # cs). match_time_at (drop i (c # cs)) = Some r \<and>
            (\<forall>j<i. match_time_at (drop j (c # cs)) = None)" by blast
    qed
    with Some show ?thesis by simp
  next
    case None
    have "(\<exists>i\<le>length (c # cs). match_time_at (drop i (c # cs)) = Some r \<and>
            (\<forall>j<i. match_time_at (drop j (c # cs)) = None)) \<longleftrightarrow>
          (\<exists>i\<le>length cs. match_time_at (drop i cs) = Some r \<and>
            (\<forall>j<i. match_time_at (drop j cs) = None))" (is "?L \<longleftrightarrow> ?R")
    proof
      assume ?L
      then obtain i where i: "i \<le> length (c # cs)" "match_time_at (drop i (c # cs)) = Some r"
        "\<forall>j<i. match_time_at (drop j (c # cs)) = None" by blast
      with None obtain i' where i': "i = Suc i'" by (cases i) auto
      have "\<forall>j<i'. match_time_at (drop j cs) = None"
      proof (intro allI impI)
        fix j assume "j < i'"
        then have "Suc j < i" using i' by simp
        with i(3) have "match_time_at (drop (Suc j) (c # cs)) = None" by blast
        then show "match_time_at (drop j cs) = None" by simp
      qed
      with i i' show ?R by auto
    next
      assume ?R
      then obtain i where i: "i \<le> length cs" "match_time_at (drop i cs) = Some r"
        "\<forall>j<i. match_time_at (drop j cs) = None" by blast
      have "\<forall>j<Suc i. match_time_at (drop j (c # cs)) = None"
      proof (intro allI impI)
        fix j assume j: "j < Suc i"
        show "match_time_at (drop j (c # cs)) = None"
        proof (cases j)
          case 0 with None show ?thesis by simp
        next
          case (Suc j') with j i(3) show ?thesis by simp
        qed
      qed
      with i show ?L by (intro exI[of _ "Suc i"]) simp
    qed
    with None Cons.IH show ?thesis by simp
  qed
qed

text \<open>The search in the words of the specification.\<close>

lemma search_time_first:
  assumes "occurs_at t i h ap" and "\<forall>j<i. \<forall>h' ap'. \<not> occurs_at t j h' ap'"
  shows "search_time t = Some (h, ap)"
proof -
  from assms(1) have i: "i \<le> length t" and m: "match_time_at (drop i t) = Some (h, ap)"
    by (simp_all add: occurs_at_def match_time_at_iff)
  have "\<forall>j<i. match_time_at (drop j t) = None"
  proof (intro allI impI)
    fix j assume j: "j < i"
    show "match_time_at (drop j t) = None"
    proof (cases "match_time_at (drop j t)")
      case None then show ?thesis .
    next
      case (Some r)
      obtain h' ap' where "r = (h', ap')" by (cases r)
      with Some j i have "occurs_at t j h' ap'"
        by (simp add: occurs_at_def match_time_at_iff)
      with assms(2) j show ?thesis by blast
    qed
  qed
  with i m show ?thesis unfolding search_time_iff by blast
qed

lemma search_time_none:
  assumes "\<forall>i h ap. \<not> occurs_at t i h ap"
  shows "search_time t = None"
proof (cases "search_time t")
  case None then show ?thesis .
next
  case (Some r)
  obtain h ap where r: "r = (h, ap)" by (cases r)
  from Some obtain i where "i \<le> length t" "match_time_at (drop i t) = Some r"
    unfolding search_time_iff by blast
  with r have "occurs_at t i h ap" by (simp add: occurs_at_def match_time_at_iff)
  with assms show ?thesis by blast
qed

lemma search_time_shape:
  assumes "search_time t = Some (h, ap)"
  shows "(length h = 1 \<or> length h = 2) \<and> list_all is_digit h \<and>
         (\<exists>a m. ap = [a, m] \<and> a \<in> set ''APap'' \<and> m \<in> set ''Mm'')"
proof -
  from assms obtain i where "match_time_at (drop i t) = Some (h, ap)"
    unfolding search_time_iff by blast
  then have "time_prefix (drop i t) h ap" by (simp add: match_time_at_iff)
  then show ?thesis unfolding time_prefix_def by blast
qed

subsection \<open>The hour and the bucket\<close>

lemma upper_char_ampm:
  "upper_char (CHR ''A'') = CHR ''A''" "upper_char (CHR ''a'') = CHR ''A''"
  "upper_char (CHR ''P'') = CHR ''P''" "upper_char (CHR ''p'') = CHR ''P''"
  "upper_char (CHR ''M'') = CHR ''M''" "upper_char (CHR ''m'') = CHR ''M''"
  by (simp_all add: upper_char_def lower_letters_def upper_letters_def)

lemma upper_ampm:
  assumes "a \<in> set ''APap''" "m \<in> set ''Mm''"
  shows "(upper [a, m] = ''PM'') = (a \<in> set ''Pp'')" "(upper [a, m] = ''AM'') = (a \<notin> set ''Pp'')"
  using assms by (auto simp: upper_def upper_char_ampm)

lemma classify_hour_spec:
  assumes "a \<in> set ''APap''" "m \<in> set ''Mm''"
  shows "classify_hour h [a, m] = spec_hour24 (dec_val h) (a \<in> set ''Pp'')"
  unfolding classify_hour_def spec_hour24_def Let_def upper_ampm[OF assms]
  by simp

lemma classify_time_cases:
  "classify_time t \<in> {''Morning'', ''Afternoon'', ''Evening'', ''Overnight''}"
  by (simp add: classify_time_def Let_def split: option.split prod.split)

text \<open>
  C1. For every string, \<open>_classify_time\<close> returns Morning, Afternoon, Evening or
  Overnight. When no clock time of the shape H:MM AM/PM occurs in the string the result is
  Morning. Otherwise the first such time decides: its hour is brought to the 24-hour clock
  (a PM hour other than 12 gains 12, 12 PM stays 12, 12 AM becomes 0) and the result is
  Morning below 12, Afternoon below 17, Evening below 21 and Overnight from 21 on.
\<close>

theorem classify_time_spec:
  "classify_time t \<in> {''Morning'', ''Afternoon'', ''Evening'', ''Overnight''} \<and>
   ((\<forall>i h ap. \<not> occurs_at t i h ap) \<longrightarrow> classify_time t = ''Morning'') \<and>
   (\<forall>i h ap. occurs_at t i h ap \<and> (\<forall>j<i. \<forall>h' ap'. \<not> occurs_at t j h' ap') \<longrightarrow>
      classify_time t = spec_bucket (spec_hour24 (dec_val h) (hd ap \<in> set ''Pp'')))"
proof (intro conjI allI impI)
  show "classify_time t \<in> {''Morning'', ''Afternoon'', ''Evening'', ''Overnight''}"
    by (rule classify_time_cases)
next
  assume "\<forall>i h ap. \<not> occurs_at t i h ap"
  then have "search_time t = None" by (rule search_time_none)
  then show "classify_time t = ''Morning''" by (simp add: classify_time_def)
next
  fix i h ap
  assume a: "occurs_at t i h ap \<and> (\<forall>j<i. \<forall>h' ap'. \<not> occurs_at t j h' ap')"
  then have s: "search_time t = Some (h, ap)" using search_time_first by blast
  from search_time_shape[OF s] obtain a m where
    ap: "ap = [a, m]" "a \<in> set ''APap''" "m \<in> set ''Mm''" by blast
  have "classify_hour h ap = spec_hour24 (dec_val h) (hd ap \<in> set ''Pp'')"
    using classify_hour_spec[OF ap(2,3)] ap(1) by simp
  with s show "classify_time t = spec_bucket (spec_hour24 (dec_val h) (hd ap \<in> set ''Pp''))"
    by (simp add: classify_time_def spec_bucket_def Let_def)
qed

lemma occurs_at_example: "occurs_at ''6:30pm'' 0 ''6'' ''pm''"
  unfolding occurs_at_def match_time_at_iff[symmetric]
  by (simp add: match_time_at_def match_time_with_def is_digit_def is_space_def)

theorem classify_time_spec_witness:
  "occurs_at ''6:30pm'' 0 ''6'' ''pm'' \<and>
   classify_time ''6:30pm'' = spec_bucket (spec_hour24 (dec_val ''6'') (hd ''pm'' \<in> set ''Pp'')) \<and>
   classify_time ''6:30pm'' = ''Evening''"
proof -
  have "classify_time ''6:30pm'' = spec_bucket (spec_hour24 (dec_val ''6'') (hd ''pm'' \<in> set ''Pp''))"
    using classify_time_spec[of "''6:30pm''"] occurs_at_example by blast
  moreover have "spec_bucket (spec_hour24 (dec_val ''6'') (hd ''pm'' \<in> set ''Pp'')) = ''Evening''"
    by (simp add: spec_bucket_def spec_hour24_def dec_val_def digit_val_def)
  ultimately show ?thesis using occurs_at_example by simp
qed

subsection \<open>The late evening section of the scorer\<close>

lemma late_hour_exact:
  "(late_hour g1 g3 \<noteq> classify_hour g1 g3) = (upper g3 = ''AM'' \<and> dec_val g1 = 12)"
  by (auto simp: late_hour_def classify_hour_def Let_def)

lemma score_late_hour_exact:
  "(score_late_hour t \<noteq> classify_time_hour t) =
   (\<exists>g1 g3. search_time t = Some (g1, g3) \<and> upper g3 = ''AM'' \<and> dec_val g1 = 12)"
proof (cases "search_time t")
  case None
  then show ?thesis by (simp add: score_late_hour_def classify_time_hour_def)
next
  case (Some r)
  obtain g1 g3 where "r = (g1, g3)" by (cases r)
  with Some late_hour_exact[of g1 g3] show ?thesis
    by (simp add: score_late_hour_def classify_time_hour_def)
qed

lemma late_hour_ge_21: "(21 \<le> late_hour g1 g3) = (21 \<le> classify_hour g1 g3)"
  by (simp add: late_hour_def classify_hour_def Let_def)

lemma late_term_fires:
  "late_term shift (base, breakdown) =
     (case classify_time_hour (or_empty (sh_time_raw shift)) of
        Some hour \<Rightarrow>
          if 21 \<le> hour
          then (base - 10, dict_set breakdown ''late'' ''Late evening shift (-10%)'')
          else (base, breakdown)
      | None \<Rightarrow> (base, breakdown))"
  by (simp add: late_term_def classify_time_hour_def late_hour_ge_21
           split: option.split prod.split)

text \<open>
  C5. The claim is that the late evening section derives the hour of \<open>_classify_time\<close> on
  every input, 12 AM included. The section repeats the PM step of \<open>_classify_time\<close> and
  leaves out its 12 AM step: for the text 12:00AM it derives the hour 12 where
  \<open>_classify_time\<close> derives 0. By \<open>score_late_hour_exact\<close> the two hours differ exactly
  when the time found is a 12 AM time; by \<open>late_term_fires\<close> the section still subtracts 10
  exactly when the hour of \<open>_classify_time\<close> is at least 21, so the score is not affected.
\<close>

theorem late_hour_differs_at_midnight:
  "score_late_hour ''12:00AM'' = Some 12 \<and> classify_time_hour ''12:00AM'' = Some 0 \<and>
   score_late_hour ''12:00AM'' \<noteq> classify_time_hour ''12:00AM'' \<and>
   late_term (sample_shift\<lparr>sh_time_raw := Some ''12:00AM''\<rparr>) (100, []) = (100, [])"
  by code_simp

lemma hours_agree_at_noon:
  "score_late_hour ''12:00PM'' = Some 12 \<and> classify_time_hour ''12:00PM'' = Some 12"
  by code_simp

lemma late_term_example:
  "late_term (sample_shift\<lparr>sh_time_raw := Some ''9:45pm''\<rparr>) (100, []) =
     (90, [(''late'', ''Late evening shift (-10%)'')])"
  by code_simp

subsection \<open>The slots section of the scorer\<close>

lemma int_of_json_overflow:
  "(int_of_json v = Inl OverflowError) = (\<exists>negative. v = JFloat (FInf negative))"
  by (cases v rule: int_of_json.cases) (auto split: option.splits)

lemma int_of_json_caught:
  assumes "int_of_json v = Inl e" and "\<forall>negative. v \<noteq> JFloat (FInf negative)"
  shows "e = ValueError \<or> e = TypeError"
  using assms by (cases v rule: int_of_json.cases) (auto split: option.splits)

lemma str_int_0: "str_int 0 = ''0''"
  by (simp add: str_int_def str_nat.simps digit_char_def)

lemma fmt_int_0: "fmt_int 0 = Some ''0''"
  by (simp add: fmt_int_def str_int_0 str_nat.simps max_str_digits_def)

text \<open>
  C7, as stated, fails where the record has no \<open>slots\<close> key: the default of the lookup is
  the integer 0, so the entry reads \<open>0 slots available\<close> and not \<open>Slots unknown\<close>.
\<close>

theorem slots_missing_not_unknown:
  "sh_slots (sample_shift\<lparr>sh_slots := None\<rparr>) = None \<and>
   slots_term (sample_shift\<lparr>sh_slots := None\<rparr>) (100, []) =
     Inr (100, [(''slots'', ''0 slots available'')]) \<and>
   map_option (\<lambda>st. map_of (snd st) ''slots'')
     (case slots_term (sample_shift\<lparr>sh_slots := None\<rparr>) (100, []) of
        Inl e \<Rightarrow> None | Inr st \<Rightarrow> Some st) \<noteq>
     Some (Some ''Slots unknown'')"
  by (simp add: slots_term_def slots_value_def fmt_int_0)

text \<open>
  C7, amended. In the slots section, for every record whose \<open>slots\<close> value is not an
  infinite float: a record without a \<open>slots\<close> key counts as 0 slots, with the entry
  \<open>0 slots available\<close> and no change of the score; a value that \<open>int\<close> refuses with
  \<open>ValueError\<close> or \<open>TypeError\<close> (a text that is not an integer literal, null, a list, a
  dict, a float that is not a number) gives the entry \<open>Slots unknown\<close> and no change; a
  value above 3 adds 5; the value 1 subtracts 5; every other value changes nothing. The
  entry of a value other than 1 shows its decimal digits, or \<open>Slots unknown\<close> when it has
  more than 4300 of them. (For an infinite float \<open>int\<close> raises \<open>OverflowError\<close>, which
  the section does not catch: \<open>slots_infinite_raises\<close>.)
\<close>

theorem slots_term_spec:
  assumes "\<forall>negative. sh_slots shift \<noteq> Some (JFloat (FInf negative))"
  shows "slots_term shift (base, breakdown) =
     Inr (case sh_slots shift of
            None \<Rightarrow> (base, dict_set breakdown ''slots'' ''0 slots available'')
          | Some v \<Rightarrow>
              (case int_of_json v of
                 Inl e \<Rightarrow> (base, dict_set breakdown ''slots'' ''Slots unknown'')
               | Inr n \<Rightarrow>
                   if n > 3 then
                     (base + 5,
                      dict_set breakdown ''slots''
                        (case fmt_int n of
                           Some digits \<Rightarrow> digits @ '' slots available (+5%)''
                         | None \<Rightarrow> ''Slots unknown''))
                   else if n = 1 then
                     (base - 5, dict_set breakdown ''slots'' ''Only 1 slot left (-5%)'')
                   else
                     (base,
                      dict_set breakdown ''slots''
                        (case fmt_int n of
                           Some digits \<Rightarrow> digits @ '' slots available''
                         | None \<Rightarrow> ''Slots unknown''))))"
proof (cases "sh_slots shift")
  case None
  then show ?thesis by (simp add: slots_term_def slots_value_def fmt_int_0)
next
  case (Some v)
  with assms have fin: "\<forall>negative. v \<noteq> JFloat (FInf negative)" by simp
  show ?thesis
  proof (cases "int_of_json v")
    case (Inl e)
    with int_of_json_caught[OF Inl fin] Some show ?thesis
      by (auto simp: slots_term_def slots_value_def)
  next
    case (Inr n)
    with Some show ?thesis
      by (simp add: slots_term_def slots_value_def split: option.split)
  qed
qed

lemma slots_infinite_raises:
  assumes "sh_slots shift = Some (JFloat (FInf negative))"
  shows "slots_term shift st = Inl OverflowError"
  using assms by (cases st) (simp add: slots_term_def slots_value_def)

lemma py_int_examples:
  "py_int ''5'' = Some 5" "py_int ''abc'' = None" "py_int ''1'' = Some 1"
  "py_int (CHR 0x1C # ''5'') = None" "trunc_float 39 (- 1) = 19"
  by (simp_all add: py_int_def int_strip_def is_int_space_def int_body_def is_digit_def
        dec_val_def digit_val_def max_str_digits_def trunc_float_def)

lemma fmt_int_examples:
  "fmt_int 5 = Some ''5''" "fmt_int 2 = Some ''2''" "fmt_int 19 = Some ''19''"
  by (simp_all add: fmt_int_def str_int_def str_nat.simps digit_char_def max_str_digits_def)

theorem slots_term_spec_witness:
  "slots_term (sample_shift\<lparr>sh_slots := Some (JStr ''5'')\<rparr>) (100, []) =
     Inr (105, [(''slots'', ''5 slots available (+5%)'')]) \<and>
   slots_term (sample_shift\<lparr>sh_slots := Some (JStr ''1'')\<rparr>) (100, []) =
     Inr (95, [(''slots'', ''Only 1 slot left (-5%)'')]) \<and>
   slots_term (sample_shift\<lparr>sh_slots := Some (JNum 2)\<rparr>) (100, []) =
     Inr (100, [(''slots'', ''2 slots available'')]) \<and>
   slots_term (sample_shift\<lparr>sh_slots := Some (JStr ''abc'')\<rparr>) (100, []) =
     Inr (100, [(''slots'', ''Slots unknown'')]) \<and>
   slots_term (sample_shift\<lparr>sh_slots := Some (JStr (CHR 0x1C # ''5''))\<rparr>) (100, []) =
     Inr (100, [(''slots'', ''Slots unknown'')]) \<and>
   slots_term (sample_shift\<lparr>sh_slots := Some JNull\<rparr>) (100, []) =
     Inr (100, [(''slots'', ''Slots unknown'')]) \<and>
   slots_term (sample_shift\<lparr>sh_slots := Some (JFloat (FFinite 39 (- 1)))\<rparr>) (100, []) =
     Inr (105, [(''slots'', ''19 slots available (+5%)'')])"
proof -
  note ex = py_int_examples fmt_int_examples
  show ?thesis
    using slots_term_spec[of "sample_shift\<lparr>sh_slots := Some (JStr ''5'')\<rparr>" 100 "[]"]
      slots_term_spec[of "sample_shift\<lparr>sh_slots := Some (JStr ''1'')\<rparr>" 100 "[]"]
      slots_term_spec[of "sample_shift\<lparr>sh_slots := Some (JNum 2)\<rparr>" 100 "[]"]
      slots_term_spec[of "sample_shift\<lparr>sh_slots := Some (JStr ''abc'')\<rparr>" 100 "[]"]
      slots_term_spec[of "sample_shift\<lparr>sh_slots := Some (JStr (CHR 0x1C # ''5''))\<rparr>" 100 "[]"]
      slots_term_spec[of "sample_shift\<lparr>sh_slots := Some JNull\<rparr>" 100 "[]"]
      slots_term_spec[of "sample_shift\<lparr>sh_slots := Some (JFloat (FFinite 39 (- 1)))\<rparr>" 100 "[]"]
    by (simp add: ex)
qed

subsection \<open>The scorer\<close>

lemma lower_each_strs: "lower_each (map JStr cs) = Inr (map lower cs)"
  by (induction cs) simp_all

lemma lower_all_strs: "lower_all (JList (map JStr cs)) = Inr (map lower cs)"
  by (simp add: lower_all_def lower_each_strs)

lemma slots_term_returns:
  assumes "\<forall>negative. sh_slots s \<noteq> Some (JFloat (FInf negative))"
  shows "\<exists>st'. slots_term s st = Inr st'"
proof (cases "slots_value s")
  case (Inr n)
  then show ?thesis
    by (cases st) (simp add: slots_term_def split: option.split)
next
  case (Inl e)
  then obtain v where v: "sh_slots s = Some v" "int_of_json v = Inl e"
    by (auto simp: slots_value_def split: option.splits)
  with assms have "\<forall>negative. v \<noteq> JFloat (FInf negative)" by simp
  from int_of_json_caught[OF v(2) this] Inl show ?thesis
    by (cases st) (auto simp: slots_term_def)
qed

lemma score_returns:
  assumes "m_committees m = JList (map JStr cs)"
    and "\<forall>negative. sh_slots s \<noteq> Some (JFloat (FInf negative))"
  shows "\<exists>r. score m s = Inr r \<and> sc_shift r = s \<and> 0 \<le> sc_score r \<and> sc_score r \<le> 120"
proof -
  let ?st = "time_term m s (day_term m s (committee_term (map lower cs) s (100, [])))"
  from slots_term_returns[OF assms(2), of ?st] obtain st' where "slots_term s ?st = Inr st'"
    by blast
  then show ?thesis
    by (simp add: score_def assms(1) lower_all_strs Let_def)
qed

text \<open>
  C2. The scorer is a function of the record and the preferences alone: it reads no other
  state and draws no random number, and the model has none to pass to it, so two
  evaluations on the same pair give the same score and breakdown. For every matcher whose
  ranked categories are a list of strings and every record whose \<open>slots\<close> value is not
  an infinite float (so for every record of an extraction, \<open>score_extracted_returns\<close>) the
  call returns (it does not raise), the record it hands back is the record it was given,
  and the score lies between 0 and 120.
\<close>

theorem score_pure_bounded:
  assumes "m_committees m = JList (map JStr cs)"
    and "\<forall>negative. sh_slots s \<noteq> Some (JFloat (FInf negative))"
  shows "\<exists>r. score m s = Inr r \<and> sc_shift r = s \<and> 0 \<le> sc_score r \<and> sc_score r \<le> 120"
  using assms by (rule score_returns)

lemma score_infinite_slots_raises:
  assumes "m_committees m = JList (map JStr cs)"
    and "sh_slots s = Some (JFloat (FInf negative))"
  shows "score m s = Inl OverflowError"
  by (simp add: score_def assms(1) lower_all_strs Let_def slots_infinite_raises[OF assms(2)])

lemma score_example_1:
  "score sample_matcher sample_shift =
     Inr \<lparr>sc_shift = sample_shift, sc_score = 105,
          sc_breakdown = [(''committee'', ''Top choice: Produce (+10%)''),
                          (''day'', ''Saturday is a preferred day''),
                          (''time'', ''Evening is a preferred time''),
                          (''slots'', ''Only 1 slot left (-5%)'')]\<rparr>"
  by code_simp

theorem score_pure_bounded_witness:
  "m_committees sample_matcher = JList (map JStr [''Produce'']) \<and>
   sh_slots sample_shift = Some (JStr ''1'') \<and>
   (\<exists>r. score sample_matcher sample_shift = Inr r \<and> sc_shift r = sample_shift \<and>
        0 \<le> sc_score r \<and> sc_score r \<le> 120)"
proof -
  have h: "m_committees sample_matcher = JList (map JStr [''Produce''])"
    by (simp add: sample_matcher_def)
  have f: "sh_slots sample_shift = Some (JStr ''1'')" by (simp add: sample_shift_def)
  then have g: "\<forall>negative. sh_slots sample_shift \<noteq> Some (JFloat (FInf negative))" by simp
  from score_pure_bounded[OF h g] h f show ?thesis by blast
qed

subsection \<open>The ranker\<close>

lemma score_each_typed:
  assumes "m_committees m = JList (map JStr cs)"
    and "\<forall>s\<in>set ss. \<forall>negative. sh_slots s \<noteq> Some (JFloat (FInf negative))"
  shows "\<exists>scored. score_each m ss = Inr scored \<and> map Inr scored = map (score m) ss"
  using assms(2)
proof (induction ss)
  case Nil
  then show ?case by simp
next
  case (Cons s ss)
  then obtain scored where sc: "score_each m ss = Inr scored" "map Inr scored = map (score m) ss"
    by auto
  from Cons.prems have "\<forall>negative. sh_slots s \<noteq> Some (JFloat (FInf negative))" by simp
  from score_returns[OF assms(1) this] obtain r where r: "score m s = Inr r" by blast
  with sc have "score_each m (s # ss) = Inr (r # scored) \<and>
     map Inr (r # scored) = map (score m) (s # ss)" by simp
  then show ?case by blast
qed

lemma sorted_desc: "sorted_wrt (\<lambda>a b. sc_score b \<le> sc_score a) (sort_by_score_desc rs)"
proof -
  have "sorted (map (\<lambda>r. - sc_score r) (sort_by_score_desc rs))"
    unfolding sort_by_score_desc_def by (rule sorted_sort_key)
  then show ?thesis by (simp add: sorted_map sorted_wrt_iff_nth_less)
qed

lemma sort_stable:
  "filter (\<lambda>r. sc_score r = k) (sort_by_score_desc rs) = filter (\<lambda>r. sc_score r = k) rs"
proof -
  have "filter (\<lambda>r. - sc_score r = - k) (sort_key (\<lambda>r. - sc_score r) rs) =
        filter (\<lambda>r. - sc_score r = - k) rs"
    by (rule sort_key_stable)
  then show ?thesis by (simp add: sort_by_score_desc_def)
qed

lemma init_iff:
  "ShiftMatcher_init prefs = Inr m \<longleftrightarrow>
     lower_all (get_pref prefs ''days'') = Inr (m_days m) \<and>
     lower_all (get_pref prefs ''times'') = Inr (m_times m) \<and>
     lower_all (get_pref prefs ''excludedCommittees'') = Inr (m_excluded m) \<and>
     m_committees m = get_pref prefs ''committees''"
  by (cases m) (auto simp: ShiftMatcher_init_def split: sum.splits)

lemma init_fields:
  assumes "ShiftMatcher_init prefs = Inr m"
  shows "lower_all (get_pref prefs ''days'') = Inr (m_days m)"
    "lower_all (get_pref prefs ''times'') = Inr (m_times m)"
    "lower_all (get_pref prefs ''excludedCommittees'') = Inr (m_excluded m)"
    "m_committees m = get_pref prefs ''committees''"
  using assms by (simp_all add: init_iff)

text \<open>
  C3. For preferences whose excluded and ranked categories are lists of strings, and every
  list of records of which those that are not excluded have no infinite float under
  \<open>slots\<close>, \<open>rank\<close> returns a list \<open>rs\<close> such that: the records that are not excluded,
  scored one by one in their input order, give a list \<open>scored\<close>; \<open>rs\<close> holds exactly the
  elements of \<open>scored\<close>; the scores of \<open>rs\<close> never rise from one element to the next; for
  every score, the results of that score stand in \<open>rs\<close> in the order they have in
  \<open>scored\<close>; and no record of \<open>rs\<close> is excluded.
\<close>

theorem rank_spec:
  assumes init: "ShiftMatcher_init prefs = Inr m"
    and ex: "get_pref prefs ''excludedCommittees'' = JList (map JStr excl)"
    and cm: "get_pref prefs ''committees'' = JList (map JStr cs)"
    and fin: "\<forall>s\<in>set shifts. \<not> excluded_by excl s \<longrightarrow>
                (\<forall>negative. sh_slots s \<noteq> Some (JFloat (FInf negative)))"
  shows "\<exists>rs scored. rank m shifts = Inr rs \<and>
     map Inr scored = map (score m) (filter (\<lambda>s. \<not> excluded_by excl s) shifts) \<and>
     mset rs = mset scored \<and>
     sorted_wrt (\<lambda>a b. sc_score b \<le> sc_score a) rs \<and>
     (\<forall>k. filter (\<lambda>r. sc_score r = k) rs = filter (\<lambda>r. sc_score r = k) scored) \<and>
     (\<forall>r\<in>set rs. \<not> excluded_by excl (sc_shift r))"
proof -
  have m_ex: "m_excluded m = map lower excl"
    using init_fields(3)[OF init] ex by (simp add: lower_all_strs)
  have m_cm: "m_committees m = JList (map JStr cs)"
    using init_fields(4)[OF init] cm by simp
  let ?survivors = "filter (\<lambda>s. \<not> excluded_by excl s) shifts"
  have filt: "filter (\<lambda>s. lower (or_empty (sh_committee s)) \<notin> set (m_excluded m)) shifts =
      ?survivors"
    by (rule filter_cong) (auto simp: m_ex excluded_by_def)
  have fin': "\<forall>s\<in>set ?survivors. \<forall>negative. sh_slots s \<noteq> Some (JFloat (FInf negative))"
    using fin by simp
  from score_each_typed[OF m_cm fin'] obtain scored where
    sc: "score_each m ?survivors = Inr scored" "map Inr scored = map (score m) ?survivors"
    by blast
  have rk: "rank m shifts = Inr (sort_by_score_desc scored)"
    by (simp add: rank_def filt sc(1))
  have shifts_of: "\<forall>r\<in>set scored. sc_shift r \<in> set ?survivors"
  proof
    fix r assume "r \<in> set scored"
    then have "Inr r \<in> set (map (score m) ?survivors)" using sc(2) by (metis image_eqI set_map)
    then obtain s where s: "s \<in> set ?survivors" "score m s = Inr r" by auto
    from s(1) fin' have "\<forall>negative. sh_slots s \<noteq> Some (JFloat (FInf negative))" by blast
    from score_returns[OF m_cm this] s(2) have "sc_shift r = s" by auto
    with s(1) show "sc_shift r \<in> set ?survivors" by simp
  qed
  have "\<forall>r\<in>set (sort_by_score_desc scored). \<not> excluded_by excl (sc_shift r)"
    using shifts_of by (auto simp: sort_by_score_desc_def)
  moreover have "mset (sort_by_score_desc scored) = mset scored"
    by (simp add: sort_by_score_desc_def)
  ultimately show ?thesis
    using rk sc(2) sorted_desc[of scored] sort_stable[of _ scored] by blast
qed

lemma sample_init: "ShiftMatcher_init sample_prefs = Inr sample_matcher"
  by code_simp

text \<open>
  Four records: the second is excluded, the first and the fourth tie at 85 and keep
  their order behind the third.
\<close>

lemma rank_example:
  "map_sum id (map (\<lambda>r. (sh_id (sc_shift r), sc_score r))) (rank sample_matcher sample_shifts) =
     Inr [(Some ''shift_003'', 105), (Some ''shift_001'', 85), (Some ''shift_004'', 85)]"
  by code_simp

theorem rank_spec_witness:
  "ShiftMatcher_init sample_prefs = Inr sample_matcher \<and>
   get_pref sample_prefs ''excludedCommittees'' = JList (map JStr [''CHECKOUT'']) \<and>
   get_pref sample_prefs ''committees'' = JList (map JStr [''Produce'']) \<and>
   list_all (\<lambda>s. sh_slots s = Some (JStr ''1'')) sample_shifts \<and>
   (\<exists>rs scored. rank sample_matcher sample_shifts = Inr rs \<and>
     map Inr scored =
       map (score sample_matcher) (filter (\<lambda>s. \<not> excluded_by [''CHECKOUT''] s) sample_shifts) \<and>
     mset rs = mset scored \<and>
     sorted_wrt (\<lambda>a b. sc_score b \<le> sc_score a) rs \<and>
     (\<forall>k. filter (\<lambda>r. sc_score r = k) rs = filter (\<lambda>r. sc_score r = k) scored) \<and>
     (\<forall>r\<in>set rs. \<not> excluded_by [''CHECKOUT''] (sc_shift r)))"
proof -
  have h2: "get_pref sample_prefs ''excludedCommittees'' = JList (map JStr [''CHECKOUT''])"
    by (simp add: get_pref_def sample_prefs_def)
  have h3: "get_pref sample_prefs ''committees'' = JList (map JStr [''Produce''])"
    by (simp add: get_pref_def sample_prefs_def)
  have h4: "list_all (\<lambda>s. sh_slots s = Some (JStr ''1'')) sample_shifts"
    by (simp add: sample_shifts_def sample_shift_def)
  then have fin: "\<forall>s\<in>set sample_shifts. \<not> excluded_by [''CHECKOUT''] s \<longrightarrow>
                (\<forall>negative. sh_slots s \<noteq> Some (JFloat (FInf negative)))"
    by (simp add: list_all_iff)
  from rank_spec[OF sample_init h2 h3 fin] sample_init h2 h3 h4
  show ?thesis by blast
qed

subsection \<open>Preferences that are absent or malformed\<close>

lemma get_pref_absent: "map_of prefs k = None \<Longrightarrow> get_pref prefs k = JList []"
  by (simp add: get_pref_def)

lemma get_pref_present: "map_of prefs k = Some v \<Longrightarrow> get_pref prefs k = v"
  by (simp add: get_pref_def)

lemma lower_all_empty: "lower_all (JList []) = Inr []"
  by (simp add: lower_all_def)

lemma lower_each_chars: "lower_each (map (\<lambda>c. JStr [c]) x) = Inr (map (\<lambda>c. lower [c]) x)"
  by (induction x) simp_all

lemma lower_all_str: "lower_all (JStr x) = Inr (map (\<lambda>c. lower [c]) x)"
  by (simp add: lower_all_def lower_each_chars)

lemma lower_each_error: "lower_each xs = Inl e \<Longrightarrow> e = AttributeError"
proof (induction xs)
  case Nil
  then show ?case by simp
next
  case (Cons x xs)
  then show ?case by (cases x) (auto split: sum.splits)
qed

lemma lower_all_TypeError:
  "(lower_all v = Inl TypeError) =
     (case v of JNull \<Rightarrow> True | JBool b \<Rightarrow> True | JNum n \<Rightarrow> True | JFloat f \<Rightarrow> True
      | JStr y \<Rightarrow> False | JList ys \<Rightarrow> False | JObj kvs \<Rightarrow> False)"
proof (cases v)
  case (JStr x)
  then show ?thesis by (simp add: lower_all_str)
next
  case (JList xs)
  then show ?thesis using lower_each_error[of xs TypeError] by (auto simp: lower_all_def)
next
  case (JObj kvs)
  then show ?thesis
    using lower_each_error[of "map (\<lambda>kv. JStr (fst kv)) kvs" TypeError]
    by (auto simp: lower_all_def)
qed (simp_all add: lower_all_def)

lemma init_raises_iff:
  "ShiftMatcher_init prefs = Inl e \<longleftrightarrow>
     lower_all (get_pref prefs ''days'') = Inl e \<or>
     (\<exists>d. lower_all (get_pref prefs ''days'') = Inr d) \<and>
       lower_all (get_pref prefs ''times'') = Inl e \<or>
     (\<exists>d t. lower_all (get_pref prefs ''days'') = Inr d \<and>
            lower_all (get_pref prefs ''times'') = Inr t) \<and>
       lower_all (get_pref prefs ''excludedCommittees'') = Inl e"
  by (auto simp: ShiftMatcher_init_def split: sum.splits)

lemma map_of_dict_set: "map_of (dict_set bd k v) k = Some v"
proof (induction bd)
  case Nil
  show ?case by simp
next
  case (Cons p ps)
  then show ?case by (cases "fst p = k") simp_all
qed

lemma dict_set_inj: "dict_set bd k v = dict_set bd k w \<Longrightarrow> v = w"
  by (metis map_of_dict_set option.inject)

lemma dict_entry_differs: "v \<noteq> w \<Longrightarrow> (b, dict_set bd k v) \<noteq> (b, dict_set bd k w)"
  by (auto dest: dict_set_inj)

lemma fst_differs: "fst p \<noteq> b \<Longrightarrow> p \<noteq> (b, x)"
  by auto

lemma preferred_not_unset:
  "D @ '' is a preferred day'' \<noteq> ''No day preference set''"
  "D @ '' is a preferred time'' \<noteq> ''No time preference set''"
proof -
  have a: "last (D @ '' is a preferred day'') = CHR ''y''" by simp
  have b: "last ''No day preference set'' = CHR ''t''" by simp
  show "D @ '' is a preferred day'' \<noteq> ''No day preference set''"
  proof
    assume "D @ '' is a preferred day'' = ''No day preference set''"
    then have "last (D @ '' is a preferred day'') = last ''No day preference set''"
      by (rule arg_cong)
    then have "CHR ''y'' = CHR ''t''" by (simp only: a b)
    then show False by simp
  qed
  have c: "last (D @ '' is a preferred time'') = CHR ''e''" by simp
  have d: "last ''No time preference set'' = CHR ''t''" by simp
  show "D @ '' is a preferred time'' \<noteq> ''No time preference set''"
  proof
    assume "D @ '' is a preferred time'' = ''No time preference set''"
    then have "last (D @ '' is a preferred time'') = last ''No time preference set''"
      by (rule arg_cong)
    then have "CHR ''e'' = CHR ''t''" by (simp only: c d)
    then show False by simp
  qed
qed

lemma day_branch:
  "(m_days m = []) =
   (day_term m s (base, bd) = (base, dict_set bd ''day'' ''No day preference set''))"
proof (cases "m_days m = []")
  case True
  then show ?thesis by (simp add: day_term_def)
next
  case False
  have "day_term m s (base, bd) \<noteq> (base, dict_set bd ''day'' ''No day preference set'')"
  proof (cases "lower (or_empty (sh_day s)) \<in> set (m_days m)")
    case True
    with False have "day_term m s (base, bd) =
        (base, dict_set bd ''day'' (or_empty (sh_day s) @ '' is a preferred day''))"
      by (simp add: day_term_def)
    then show ?thesis by (simp only: dict_entry_differs[OF preferred_not_unset(1)] not_False_eq_True)
  next
    case no: False
    with False have "fst (day_term m s (base, bd)) = base - 20"
      by (simp add: day_term_def)
    then have "fst (day_term m s (base, bd)) \<noteq> base" by simp
    then show ?thesis by (rule fst_differs)
  qed
  with False show ?thesis by simp
qed

lemma time_branch:
  "(m_times m = []) =
   (time_term m s (base, bd) = (base, dict_set bd ''time'' ''No time preference set''))"
proof (cases "m_times m = []")
  case True
  then show ?thesis by (simp add: time_term_def)
next
  case False
  have "time_term m s (base, bd) \<noteq> (base, dict_set bd ''time'' ''No time preference set'')"
  proof (cases "lower (or_empty (sh_time_slot s)) \<in> set (m_times m)")
    case True
    with False have "time_term m s (base, bd) =
        (base, dict_set bd ''time'' (or_empty (sh_time_slot s) @ '' is a preferred time''))"
      by (simp add: time_term_def)
    then show ?thesis by (simp only: dict_entry_differs[OF preferred_not_unset(2)] not_False_eq_True)
  next
    case no: False
    with False have "fst (time_term m s (base, bd)) = base - 15"
      by (simp add: time_term_def)
    then have "fst (time_term m s (base, bd)) \<noteq> base" by simp
    then show ?thesis by (rule fst_differs)
  qed
  with False show ?thesis by simp
qed

lemma committee_branch:
  "(comm_lower = []) =
   (committee_term comm_lower s (base, bd) =
      (base, dict_set bd ''committee'' ''No committee preference set''))"
proof (cases "comm_lower = []")
  case True
  then show ?thesis by (simp add: committee_term_def)
next
  case False
  have "fst (committee_term comm_lower s (base, bd)) \<noteq> base"
    using False by (simp add: committee_term_def Let_def)
  then have "committee_term comm_lower s (base, bd) \<noteq>
      (base, dict_set bd ''committee'' ''No committee preference set'')"
    by auto
  with False show ?thesis by simp
qed

lemma score_committees_error:
  "lower_all (m_committees m) = Inl e \<Longrightarrow> score m s = Inl e"
  by (simp add: score_def)

text \<open>
  C8, as stated, fails: a value that is not a list is not replaced by an empty list.
  A number under \<open>days\<close> makes the constructor raise; a string under \<open>days\<close> becomes the
  list of its characters, a preference that no day meets, so the record loses 20; a number
  under \<open>committees\<close> is stored and makes every call of the scorer raise.
\<close>

theorem malformed_preference_raises:
  "ShiftMatcher_init [(''days'', JNum 5)] = Inl TypeError \<and>
   ShiftMatcher_init [(''days'', JStr ''Sat'')] =
     Inr \<lparr>m_days = [''s'', ''a'', ''t''], m_times = [], m_committees = JList [],
          m_excluded = []\<rparr> \<and>
   day_term \<lparr>m_days = [''s'', ''a'', ''t''], m_times = [], m_committees = JList [],
             m_excluded = []\<rparr>
     sample_shift (100, []) = (80, [(''day'', ''Saturday is not preferred (-20%)'')]) \<and>
   ShiftMatcher_init [(''committees'', JNum 5)] =
     Inr \<lparr>m_days = [], m_times = [], m_committees = JNum 5, m_excluded = []\<rparr> \<and>
   score \<lparr>m_days = [], m_times = [], m_committees = JNum 5, m_excluded = []\<rparr> sample_shift =
     Inl TypeError"
  by code_simp

text \<open>
  C8, amended. Only a key that is absent counts as an empty list; a value that is
  present is used as it is. The constructor returns a matcher exactly when the values
  under \<open>days\<close>, \<open>times\<close> and \<open>excludedCommittees\<close> can each be iterated and all their
  items are strings; the matcher then holds the items in lower case and the value under
  \<open>committees\<close> unchanged. Otherwise the constructor raises the error of the first of the
  three keys, in this order, whose value fails. The items of a list of strings are its
  elements, those of a string its characters; null, a boolean and a number cannot be
  iterated and raise \<open>TypeError\<close>. The day, the time and the category section of the scorer
  take their no-preference branch exactly when the list they read is empty, and a value
  under \<open>committees\<close> that fails makes every call of the scorer raise its error.
\<close>

theorem init_absent_or_malformed:
  "(ShiftMatcher_init prefs = Inr m \<longleftrightarrow>
      lower_all (get_pref prefs ''days'') = Inr (m_days m) \<and>
      lower_all (get_pref prefs ''times'') = Inr (m_times m) \<and>
      lower_all (get_pref prefs ''excludedCommittees'') = Inr (m_excluded m) \<and>
      m_committees m = get_pref prefs ''committees'') \<and>
   (ShiftMatcher_init prefs = Inl e \<longleftrightarrow>
      lower_all (get_pref prefs ''days'') = Inl e \<or>
      (\<exists>d. lower_all (get_pref prefs ''days'') = Inr d) \<and>
        lower_all (get_pref prefs ''times'') = Inl e \<or>
      (\<exists>d t. lower_all (get_pref prefs ''days'') = Inr d \<and>
             lower_all (get_pref prefs ''times'') = Inr t) \<and>
        lower_all (get_pref prefs ''excludedCommittees'') = Inl e) \<and>
   (map_of prefs k = None \<longrightarrow> lower_all (get_pref prefs k) = Inr []) \<and>
   (map_of prefs k = Some v \<longrightarrow> get_pref prefs k = v) \<and>
   lower_all (JList (map JStr xs)) = Inr (map lower xs) \<and>
   lower_all (JStr x) = Inr (map (\<lambda>c. lower [c]) x) \<and>
   (lower_all v = Inl TypeError) =
     (case v of JNull \<Rightarrow> True | JBool b \<Rightarrow> True | JNum n \<Rightarrow> True | JFloat f \<Rightarrow> True
      | JStr y \<Rightarrow> False | JList ys \<Rightarrow> False | JObj kvs \<Rightarrow> False) \<and>
   (m_days m = []) =
     (day_term m s (base, bd) = (base, dict_set bd ''day'' ''No day preference set'')) \<and>
   (m_times m = []) =
     (time_term m s (base, bd) = (base, dict_set bd ''time'' ''No time preference set'')) \<and>
   (comm_lower = []) =
     (committee_term comm_lower s (base, bd) =
        (base, dict_set bd ''committee'' ''No committee preference set'')) \<and>
   (lower_all (m_committees m) = Inl e \<longrightarrow> score m s = Inl e)"
proof (intro conjI)
  show "ShiftMatcher_init prefs = Inr m \<longleftrightarrow>
      lower_all (get_pref prefs ''days'') = Inr (m_days m) \<and>
      lower_all (get_pref prefs ''times'') = Inr (m_times m) \<and>
      lower_all (get_pref prefs ''excludedCommittees'') = Inr (m_excluded m) \<and>
      m_committees m = get_pref prefs ''committees''"
    by (rule init_iff)
  show "ShiftMatcher_init prefs = Inl e \<longleftrightarrow>
      lower_all (get_pref prefs ''days'') = Inl e \<or>
      (\<exists>d. lower_all (get_pref prefs ''days'') = Inr d) \<and>
        lower_all (get_pref prefs ''times'') = Inl e \<or>
      (\<exists>d t. lower_all (get_pref prefs ''days'') = Inr d \<and>
             lower_all (get_pref prefs ''times'') = Inr t) \<and>
        lower_all (get_pref prefs ''excludedCommittees'') = Inl e"
    by (rule init_raises_iff)
  show "map_of prefs k = None \<longrightarrow> lower_all (get_pref prefs k) = Inr []"
    by (simp add: get_pref_absent lower_all_empty)
  show "map_of prefs k = Some v \<longrightarrow> get_pref prefs k = v"
    by (simp add: get_pref_present)
  show "lower_all (JList (map JStr xs)) = Inr (map lower xs)" by (rule lower_all_strs)
  show "lower_all (JStr x) = Inr (map (\<lambda>c. lower [c]) x)" by (rule lower_all_str)
  show "(lower_all v = Inl TypeError) =
     (case v of JNull \<Rightarrow> True | JBool b \<Rightarrow> True | JNum n \<Rightarrow> True | JFloat f \<Rightarrow> True
      | JStr y \<Rightarrow> False | JList ys \<Rightarrow> False | JObj kvs \<Rightarrow> False)"
    by (rule lower_all_TypeError)
  show "(m_days m = []) =
     (day_term m s (base, bd) = (base, dict_set bd ''day'' ''No day preference set''))"
    by (rule day_branch)
  show "(m_times m = []) =
     (time_term m s (base, bd) = (base, dict_set bd ''time'' ''No time preference set''))"
    by (rule time_branch)
  show "(comm_lower = []) =
     (committee_term comm_lower s (base, bd) =
        (base, dict_set bd ''committee'' ''No committee preference set''))"
    by (rule committee_branch)
  show "lower_all (m_committees m) = Inl e \<longrightarrow> score m s = Inl e"
    by (simp add: score_committees_error)
qed

lemma lower_Evening: "lower ''Evening'' = ''evening''"
  by code_simp

theorem init_absent_or_malformed_witness:
  "ShiftMatcher_init [(''times'', JList [JStr ''Evening'']), (''committees'', JNull)] =
     Inr \<lparr>m_days = [], m_times = [''evening''], m_committees = JNull, m_excluded = []\<rparr> \<and>
   day_term \<lparr>m_days = [], m_times = [''evening''], m_committees = JNull, m_excluded = []\<rparr>
     sample_shift (100, []) = (100, [(''day'', ''No day preference set'')]) \<and>
   time_term \<lparr>m_days = [], m_times = [''evening''], m_committees = JNull, m_excluded = []\<rparr>
     sample_shift (100, []) \<noteq> (100, [(''time'', ''No time preference set'')]) \<and>
   score \<lparr>m_days = [], m_times = [''evening''], m_committees = JNull, m_excluded = []\<rparr>
     sample_shift = Inl TypeError \<and>
   ShiftMatcher_init [(''excludedCommittees'', JNum 5)] = Inl TypeError"
proof -
  let ?P = "[(''times'', JList [JStr ''Evening'']), (''committees'', JNull)]"
  let ?m = "\<lparr>m_days = [], m_times = [''evening''], m_committees = JNull, m_excluded = []\<rparr>"
  let ?Q = "[(''excludedCommittees'', JNum 5)]"
  have d: "lower_all (get_pref ?P ''days'') = Inr (m_days ?m)"
    by (simp add: get_pref_def lower_all_def)
  have t: "lower_all (get_pref ?P ''times'') = Inr (m_times ?m)"
    by (simp add: get_pref_def lower_all_def lower_Evening)
  have x: "lower_all (get_pref ?P ''excludedCommittees'') = Inr (m_excluded ?m)"
    by (simp add: get_pref_def lower_all_def)
  have c: "m_committees ?m = get_pref ?P ''committees''"
    by (simp add: get_pref_def)
  have ce: "lower_all (m_committees ?m) = Inl TypeError"
    by (simp add: lower_all_def)
  have md: "m_days ?m = []" and mt: "m_times ?m \<noteq> []" by simp_all
  note P = init_absent_or_malformed[where prefs = ?P and m = ?m and e = TypeError
      and s = sample_shift and base = 100 and bd = "[]"]
  from P d t x c have i: "ShiftMatcher_init ?P = Inr ?m" by blast
  from P md have dt: "day_term ?m sample_shift (100, []) =
      (100, dict_set [] ''day'' ''No day preference set'')" by blast
  from P mt have tt: "time_term ?m sample_shift (100, []) \<noteq>
      (100, dict_set [] ''time'' ''No time preference set'')" by blast
  from P ce have sc: "score ?m sample_shift = Inl TypeError" by blast
  have qd: "lower_all (get_pref ?Q ''days'') = Inr []"
    and qt: "lower_all (get_pref ?Q ''times'') = Inr []"
    and qx: "lower_all (get_pref ?Q ''excludedCommittees'') = Inl TypeError"
    by (simp_all add: get_pref_def lower_all_def)
  note Q = init_absent_or_malformed[where prefs = ?Q and e = TypeError]
  from Q qd qt qx have j: "ShiftMatcher_init ?Q = Inl TypeError" by blast
  from i dt tt sc j show ?thesis by simp
qed

subsection \<open>The rendering of the id\<close>

lemma digit_val_digit_char: "d < 10 \<Longrightarrow> digit_val (digit_char d) = d"
proof -
  assume "d < 10"
  then have "d \<in> {0,1,2,3,4,5,6,7,8,9}" by auto
  then show ?thesis by (auto simp: digit_val_def digit_char_def)
qed

lemma dec_val_snoc: "dec_val (ds @ [c]) = 10 * dec_val ds + digit_val c"
  by (simp add: dec_val_def)

lemma dec_val_str_nat: "dec_val (str_nat n) = n"
proof (induction n rule: str_nat.induct)
  case (1 n)
  show ?case
  proof (cases "n < 10")
    case True
    then show ?thesis
      by (subst str_nat.simps) (simp add: dec_val_def digit_val_digit_char)
  next
    case False
    with 1 have "dec_val (str_nat (n div 10)) = n div 10" by simp
    with False show ?thesis
      by (subst str_nat.simps) (simp add: dec_val_snoc digit_val_digit_char)
  qed
qed

lemma dec_val_zeros: "foldl (\<lambda>acc c. 10 * acc + digit_val c) 0 (replicate k (CHR ''0'')) = 0"
  by (induction k) (simp_all add: digit_val_def)

lemma dec_val_zero_pad3: "dec_val (zero_pad3 ds) = dec_val ds"
  by (simp add: zero_pad3_def dec_val_def dec_val_zeros)

lemma shift_id_inj: "shift_id a = shift_id b \<Longrightarrow> a = b"
proof -
  assume "shift_id a = shift_id b"
  then have "zero_pad3 (str_nat a) = zero_pad3 (str_nat b)" by (simp add: shift_id_def)
  then have "dec_val (zero_pad3 (str_nat a)) = dec_val (zero_pad3 (str_nat b))" by simp
  then show "a = b" by (simp add: dec_val_zero_pad3 dec_val_str_nat)
qed

lemma distinct_shift_ids: "distinct (map (\<lambda>i. Some (shift_id i)) [a..<b])"
  by (auto simp: distinct_map inj_on_def dest: shift_id_inj)

subsection \<open>The ids of the table strategy\<close>

lemma ids_ok_length: "ids_ok counter shifts \<Longrightarrow> length shifts = counter"
  unfolding ids_ok_def by (metis length_map length_upt diff_Suc_1)

lemma ids_ok_snoc:
  "ids_ok counter shifts \<Longrightarrow> sh_id sh = Some (shift_id (Suc counter)) \<Longrightarrow>
   ids_ok (Suc counter) (shifts @ [sh])"
  by (simp add: ids_ok_def)

lemma parse_rows_ids:
  "ids_ok counter shifts \<Longrightarrow>
   parse_rows rnd hm tbl ri rows cur (counter, k, shifts) = (counter', k', shifts') \<Longrightarrow>
   ids_ok counter' shifts'"
proof (induction rows arbitrary: ri cur counter k shifts)
  case Nil
  then show ?case by simp
next
  case (Cons cells rows)
  have step: "\<And>ri cur c k s. ids_ok c s \<Longrightarrow>
      parse_rows rnd hm tbl ri rows cur (c, k, s) = (counter', k', shifts') \<Longrightarrow>
      ids_ok counter' shifts'"
    using Cons.IH by blast
  have snoc: "\<And>sh. ids_ok (Suc counter) (shifts @ [sh\<lparr>sh_id := Some (shift_id (Suc counter))\<rparr>])"
    using Cons.prems(1) by (simp add: ids_ok_snoc)
  from Cons.prems(2) show ?case
    by (auto simp: Let_def split: if_splits prod.splits option.splits
             intro: step[OF Cons.prems(1)] step[OF snoc])
qed

lemma parse_tables_ids:
  "ids_ok counter shifts \<Longrightarrow>
   parse_tables rnd ti tables (counter, k, shifts) = (counter', k', shifts') \<Longrightarrow>
   ids_ok counter' shifts'"
proof (induction tables arbitrary: ti counter k shifts)
  case Nil
  then show ?case by simp
next
  case (Cons rows tables)
  show ?case
  proof (cases rows)
    case Nil
    with Cons.prems(2) have
      "parse_tables rnd (Suc ti) tables (counter, k, shifts) = (counter', k', shifts')" by simp
    from Cons.IH[OF Cons.prems(1) this] show ?thesis .
  next
    case (Cons header data)
    obtain c2 k2 s2 where
      pr: "parse_rows rnd (detect_headers header) ti 1 data None (counter, k, shifts) = (c2, k2, s2)"
      by (metis prod_cases3)
    have ok: "ids_ok c2 s2" using Cons.prems(1) pr by (rule parse_rows_ids)
    from Cons Cons.prems(2) pr have
      "parse_tables rnd (Suc ti) tables (c2, k2, s2) = (counter', k', shifts')" by simp
    from Cons.IH[OF ok this] show ?thesis .
  qed
qed

lemma parse_shifts_ids: "ids_ok (length (parse_shifts rnd tables)) (parse_shifts rnd tables)"
proof -
  obtain c k s where r: "parse_tables rnd 0 tables (0, 0, []) = (c, k, s)"
    by (metis prod_cases3)
  have "ids_ok 0 []" by (simp add: ids_ok_def)
  from parse_tables_ids[OF this r] have ok: "ids_ok c s" .
  with r ids_ok_length[OF ok] show ?thesis by (simp add: parse_shifts_def)
qed

subsection \<open>The grid strategy, link by link\<close>

lemma parse_links_eq:
  "parse_links day date_str links (counter, shifts) =
     (counter + length links,
      shifts @ map (\<lambda>(i, lnk). parse_link day date_str i lnk) (enumerate (Suc counter) links))"
  by (induction links arbitrary: counter shifts) simp_all

lemma parse_column_eq:
  "parse_column col (counter, shifts) =
     (counter + length (column_links col),
      shifts @ map (\<lambda>(i, d, dt, lnk). parse_link d dt i lnk)
                 (enumerate (Suc counter) (column_links col)))"
proof (cases "col_header col")
  case None
  then show ?thesis by (simp add: parse_column_def column_links_def)
next
  case (Some h)
  obtain d dt where hd: "header_day_date h = (d, dt)" by (cases "header_day_date h")
  have "map (\<lambda>(i, lnk). parse_link d dt i lnk) (enumerate (Suc counter) (col_links col)) =
        map (\<lambda>(i, d, dt, lnk). parse_link d dt i lnk)
          (enumerate (Suc counter) (map (\<lambda>lnk. (d, dt, lnk)) (col_links col)))"
    by (simp add: enumerate_eq_zip zip_map2 split_def)
  with Some hd show ?thesis
    by (simp add: parse_column_def column_links_def parse_links_eq)
qed

lemma foldl_parse_column_eq:
  "foldl (\<lambda>st col. parse_column col st) (counter, shifts) columns =
     (counter + length (grid_links columns),
      shifts @ map (\<lambda>(i, d, dt, lnk). parse_link d dt i lnk)
                 (enumerate (Suc counter) (grid_links columns)))"
proof (induction columns arbitrary: counter shifts)
  case Nil
  then show ?case by (simp add: grid_links_def)
next
  case (Cons col columns)
  have split: "enumerate (Suc counter) (column_links col @ grid_links columns) =
      enumerate (Suc counter) (column_links col) @
      enumerate (Suc (counter + length (column_links col))) (grid_links columns)"
    by (simp add: enumerate_append_eq)
  have "grid_links (col # columns) = column_links col @ grid_links columns"
    by (simp add: grid_links_def)
  then show ?case
    using Cons.IH split by (simp add: parse_column_eq add.assoc)
qed

lemma parse_column_layout_eq:
  assumes "doc_grid soup = Some columns"
  shows "parse_column_layout soup =
     map (\<lambda>(i, d, dt, lnk). parse_link d dt i lnk) (enumerate 1 (grid_links columns))"
  using assms by (simp add: parse_column_layout_def foldl_parse_column_eq del: foldl_Cons)

lemma parse_link_fields:
  "sh_id (parse_link d dt i lnk) = Some (shift_id i)"
  "sh_day (parse_link d dt i lnk) = Some d"
  "sh_date (parse_link d dt i lnk) = Some dt"
  by (simp_all add: parse_link_def Let_def)

lemma ids_of_links:
  "map sh_id (map (\<lambda>(i, d, dt, lnk). parse_link d dt i lnk) xs) =
   map (\<lambda>i. Some (shift_id i)) (map fst xs)"
  by (induction xs) (auto simp: parse_link_fields)

lemma parse_column_layout_ids:
  "ids_ok (length (parse_column_layout soup)) (parse_column_layout soup)"
proof (cases "doc_grid soup")
  case None
  then show ?thesis by (simp add: parse_column_layout_def ids_ok_def)
next
  case (Some columns)
  let ?links = "grid_links columns"
  have len: "length (parse_column_layout soup) = length ?links"
    by (simp add: parse_column_layout_eq[OF Some])
  have "map sh_id (parse_column_layout soup) =
        map (\<lambda>i. Some (shift_id i)) (map fst (enumerate 1 ?links))"
    unfolding parse_column_layout_eq[OF Some] by (rule ids_of_links)
  also have "map fst (enumerate 1 ?links) = [1..<1 + length ?links]"
    by (rule map_fst_enumerate)
  finally have "map sh_id (parse_column_layout soup) =
        map (\<lambda>i. Some (shift_id i)) [1..<Suc (length ?links)]"
    by (simp only: plus_1_eq_Suc)
  then show ?thesis
    unfolding ids_ok_def len .
qed

lemma length_grid_links:
  "length (grid_links columns) =
     (\<Sum>col\<leftarrow>columns. if col_header col = None then 0 else length (col_links col))"
proof -
  have "\<And>col. length (column_links col) =
      (if col_header col = None then 0 else length (col_links col))"
    by (auto simp: column_links_def)
  then show ?thesis
    by (simp add: grid_links_def length_concat comp_def)
qed

lemma column_links_unmatched:
  assumes "col_header col = Some h" "match_day_header h = None"
  shows "column_links col = map (\<lambda>lnk. (''Unknown'', [], lnk)) (col_links col)"
  using assms by (simp add: column_links_def header_day_date_def)

text \<open>
  C6, as stated, fails: a column that has no paragraph element is passed over, and its
  links with it. Here the one column of the grid has a link and no paragraph, and nothing
  is emitted.
\<close>

theorem column_without_header_dropped:
  "col_links \<lparr>col_header = None, col_links = [shift_link [] ''7:00am'' ''Lost'']\<rparr> =
     [shift_link [] ''7:00am'' ''Lost''] \<and>
   parse_column_layout
     \<lparr>doc_tables = [],
      doc_grid = Some [\<lparr>col_header = None, col_links = [shift_link [] ''7:00am'' ''Lost'']\<rparr>]\<rparr> = []"
  by (simp add: parse_column_layout_def parse_column_def)

text \<open>
  C6, amended. In the grid strategy the emitted records are, one for one and in document
  order, the shift links of the columns that have a paragraph element (a column without
  one is passed over); there is no other rejection, so their number is the number of those
  links. Each record carries the day and the date of its column, and a column whose header
  text does not match the pattern has all its links emitted with the day \<open>Unknown\<close> and
  the empty date.
\<close>

theorem grid_emits_every_link:
  assumes "doc_grid soup = Some columns"
  shows "parse_column_layout soup =
           map (\<lambda>(i, d, dt, lnk). parse_link d dt i lnk) (enumerate 1 (grid_links columns)) \<and>
         length (parse_column_layout soup) =
           (\<Sum>col\<leftarrow>columns. if col_header col = None then 0 else length (col_links col)) \<and>
         (\<forall>col h. col_header col = Some h \<and> match_day_header h = None \<longrightarrow>
            column_links col = map (\<lambda>lnk. (''Unknown'', [], lnk)) (col_links col)) \<and>
         (\<forall>d dt i lnk. sh_day (parse_link d dt i lnk) = Some d \<and>
                       sh_date (parse_link d dt i lnk) = Some dt)"
proof -
  have "length (parse_column_layout soup) = length (grid_links columns)"
    by (simp add: parse_column_layout_eq[OF assms])
  then show ?thesis
    using parse_column_layout_eq[OF assms] length_grid_links[of columns]
      column_links_unmatched parse_link_fields(2,3)
    by auto
qed

lemma grid_page_days:
  "map (\<lambda>s. (sh_id s, sh_day s, sh_date s, sh_time_raw s)) (parse_column_layout grid_page) =
     [(Some ''shift_001'', Some ''Saturday'', Some ''2/14/2026'', Some ''6:30pm''),
      (Some ''shift_002'', Some ''Unknown'', Some [], Some ''9:45pm''),
      (Some ''shift_003'', Some ''Unknown'', Some [], Some ''8:00am'')]"
  by code_simp

theorem grid_emits_every_link_witness:
  "doc_grid grid_page = Some (the (doc_grid grid_page)) \<and>
   length (parse_column_layout grid_page) = 3 \<and>
   col_header (the (doc_grid grid_page) ! 2) = Some ''Next week'' \<and>
   match_day_header ''Next week'' = None \<and>
   column_links (the (doc_grid grid_page) ! 2) =
     map (\<lambda>lnk. (''Unknown'', [], lnk)) (col_links (the (doc_grid grid_page) ! 2))"
proof -
  have g: "doc_grid grid_page = Some (the (doc_grid grid_page))"
    by (simp add: grid_page_def)
  have h: "col_header (the (doc_grid grid_page) ! 2) = Some ''Next week''"
    by (simp add: grid_page_def)
  have m: "match_day_header ''Next week'' = None" by code_simp
  have "(\<Sum>col\<leftarrow>the (doc_grid grid_page). if col_header col = None then 0 else length (col_links col)) = 3"
    by (simp add: grid_page_def)
  with grid_emits_every_link[OF g] g h m show ?thesis by auto
qed

subsection \<open>The slots of an extracted record\<close>

text \<open>
  Both strategies write a text under \<open>slots\<close>, so the scorer returns on every record of
  an extraction.
\<close>

lemma slots_text_finite:
  "slots_is_text s \<Longrightarrow> \<forall>negative. sh_slots s \<noteq> Some (JFloat (FInf negative))"
  by (auto simp: slots_is_text_def)

lemma extract_shift_slots:
  "extract_shift rnd k cells hm current_day tbl row = (Some sh, k') \<Longrightarrow> slots_is_text sh"
  by (auto simp: extract_shift_def Let_def slots_is_text_def split: prod.splits if_splits)

lemma slots_is_text_id: "slots_is_text (sh\<lparr>sh_id := x\<rparr>) = slots_is_text sh"
  by (simp add: slots_is_text_def)

lemma parse_rows_slots:
  "list_all slots_is_text shifts \<Longrightarrow>
   parse_rows rnd hm tbl ri rows cur (counter, k, shifts) = (counter', k', shifts') \<Longrightarrow>
   list_all slots_is_text shifts'"
proof (induction rows arbitrary: ri cur counter k shifts)
  case Nil
  then show ?case by simp
next
  case (Cons cells rows)
  have step: "\<And>ri cur c k s. list_all slots_is_text s \<Longrightarrow>
      parse_rows rnd hm tbl ri rows cur (c, k, s) = (counter', k', shifts') \<Longrightarrow>
      list_all slots_is_text shifts'"
    using Cons.IH by blast
  have snoc: "\<And>sh. slots_is_text sh \<Longrightarrow>
      list_all slots_is_text (shifts @ [sh\<lparr>sh_id := Some (shift_id (Suc counter))\<rparr>])"
    using Cons.prems(1) by (simp add: slots_is_text_id)
  from Cons.prems(2) show ?case
    by (auto simp: Let_def split: if_splits prod.splits option.splits
             intro: step[OF Cons.prems(1)] step[OF snoc[OF extract_shift_slots]])
qed

lemma parse_tables_slots:
  "list_all slots_is_text shifts \<Longrightarrow>
   parse_tables rnd ti tables (counter, k, shifts) = (counter', k', shifts') \<Longrightarrow>
   list_all slots_is_text shifts'"
proof (induction tables arbitrary: ti counter k shifts)
  case Nil
  then show ?case by simp
next
  case (Cons rows tables)
  show ?case
  proof (cases rows)
    case Nil
    with Cons.prems(2) have
      "parse_tables rnd (Suc ti) tables (counter, k, shifts) = (counter', k', shifts')" by simp
    from Cons.IH[OF Cons.prems(1) this] show ?thesis .
  next
    case (Cons header data)
    obtain c2 k2 s2 where
      pr: "parse_rows rnd (detect_headers header) ti 1 data None (counter, k, shifts) = (c2, k2, s2)"
      by (metis prod_cases3)
    have ok: "list_all slots_is_text s2" using Cons.prems(1) pr by (rule parse_rows_slots)
    from Cons Cons.prems(2) pr have
      "parse_tables rnd (Suc ti) tables (c2, k2, s2) = (counter', k', shifts')" by simp
    from Cons.IH[OF ok this] show ?thesis .
  qed
qed

lemma parse_shifts_slots: "list_all slots_is_text (parse_shifts rnd tables)"
proof -
  obtain c k s where r: "parse_tables rnd 0 tables (0, 0, []) = (c, k, s)"
    by (metis prod_cases3)
  have "list_all slots_is_text []" by simp
  from parse_tables_slots[OF this r] r show ?thesis by (simp add: parse_shifts_def)
qed

lemma parse_link_slots: "slots_is_text (parse_link day date_str counter lnk)"
  by (simp add: parse_link_def slots_is_text_def Let_def)

lemma parse_links_slots:
  "list_all slots_is_text shifts \<Longrightarrow>
   list_all slots_is_text (snd (parse_links day date_str links (counter, shifts)))"
  by (auto simp: parse_links_eq list_all_iff parse_link_slots)

lemma parse_column_slots:
  "list_all slots_is_text (snd st) \<Longrightarrow> list_all slots_is_text (snd (parse_column col st))"
  by (cases st) (simp add: parse_column_def parse_links_slots split: option.splits prod.splits)

lemma foldl_parse_column_slots:
  "list_all slots_is_text (snd st) \<Longrightarrow>
   list_all slots_is_text (snd (foldl (\<lambda>st col. parse_column col st) st columns))"
  by (induction columns arbitrary: st) (simp_all add: parse_column_slots)

lemma parse_column_layout_slots: "list_all slots_is_text (parse_column_layout soup)"
  by (simp add: parse_column_layout_def foldl_parse_column_slots split: option.splits)

lemma get_shifts_slots:
  "list_all slots_is_text (res_parsed_shifts (get_shifts rnd html soup debug_info))"
  by (simp add: get_shifts_def Let_def parse_shifts_slots parse_column_layout_slots)

lemma score_extracted_returns:
  assumes "m_committees m = JList (map JStr cs)"
    and "s \<in> set (res_parsed_shifts (get_shifts rnd html soup debug_info))"
  shows "\<exists>r. score m s = Inr r \<and> sc_shift r = s \<and> 0 \<le> sc_score r \<and> sc_score r \<le> 120"
proof -
  from assms(2) get_shifts_slots[of rnd html soup debug_info] have "slots_is_text s"
    by (simp add: list_all_iff)
  from score_returns[OF assms(1) slots_text_finite[OF this]] show ?thesis .
qed

subsection \<open>The extraction coordinator\<close>

text \<open>
  C4. The coordinator runs the table strategy first and the grid strategy exactly when
  the table strategy gave no record: the line of the debug log that the grid strategy
  writes is there in that case and in no other. The result is the output of the table
  strategy when it is not empty and the output of the grid strategy otherwise. A page
  without a grid container gives no grid record; when both strategies give nothing the
  call still succeeds, with an empty list of shifts, and the caller takes the branch for
  no shifts found. Nothing on this path raises: the functions of the model have no error
  result because the source has no raise there.
\<close>

theorem get_shifts_fallback:
  "res_success (get_shifts rnd html soup dbg) \<and>
   res_message (get_shifts rnd html soup dbg) = ''OK'' \<and>
   res_parsed_shifts (get_shifts rnd html soup dbg) =
     (if parse_shifts rnd (doc_tables soup) = [] then parse_column_layout soup
      else parse_shifts rnd (doc_tables soup)) \<and>
   res_debug (get_shifts rnd html soup dbg) =
     dbg @
     [''Parsed '' @ str_nat (length (parse_shifts rnd (doc_tables soup))) @ '' shifts from tables''] @
     (if parse_shifts rnd (doc_tables soup) = []
      then [''Parsed '' @ str_nat (length (parse_column_layout soup)) @
            '' shifts from column layout'']
      else []) \<and>
   (doc_grid soup = None \<longrightarrow> parse_column_layout soup = []) \<and>
   (parse_shifts rnd (doc_tables soup) = [] \<and> parse_column_layout soup = [] \<longrightarrow>
      res_parsed_shifts (get_shifts rnd html soup dbg) = [] \<and>
      api_login_source (get_shifts rnd html soup dbg) = ''mock'')"
  by (simp add: get_shifts_def Let_def api_login_source_def parse_column_layout_def)

lemma empty_page_tables: "parse_shifts (\<lambda>k. 3) (doc_tables empty_page) = []"
  by code_simp

theorem get_shifts_fallback_witness:
  "doc_grid empty_page = None \<and>
   parse_shifts (\<lambda>k. 3) (doc_tables empty_page) = [] \<and>
   parse_column_layout empty_page = [] \<and>
   res_success (get_shifts (\<lambda>k. 3) ''html'' empty_page []) \<and>
   res_parsed_shifts (get_shifts (\<lambda>k. 3) ''html'' empty_page []) = [] \<and>
   res_debug (get_shifts (\<lambda>k. 3) ''html'' empty_page []) =
     [''Parsed 0 shifts from tables'', ''Parsed 0 shifts from column layout''] \<and>
   api_login_source (get_shifts (\<lambda>k. 3) ''html'' empty_page []) = ''mock''"
proof -
  have g: "doc_grid empty_page = None" by (simp add: empty_page_def)
  have s: "str_nat 0 = ''0''" by code_simp
  from get_shifts_fallback[of "\<lambda>k. 3" "''html''" empty_page "[]"] g empty_page_tables s
  show ?thesis by simp
qed

subsection \<open>Ids within one extraction\<close>

text \<open>
  C9. Whichever strategy gave the result of an extraction, the id of the record at
  position \<open>i\<close> (from 0) is the rendering of the ordinal \<open>i + 1\<close>: the counter goes up by
  one with every emitted record. The rendering is \<open>shift_\<close> and the ordinal in at least
  three digits; different ordinals have different renderings, so the ids are distinct.
\<close>

theorem ids_sequential:
  "map sh_id (res_parsed_shifts (get_shifts rnd html soup debug_info)) =
     map (\<lambda>i. Some (shift_id i))
       [1..<Suc (length (res_parsed_shifts (get_shifts rnd html soup debug_info)))] \<and>
   distinct (map sh_id (res_parsed_shifts (get_shifts rnd html soup debug_info))) \<and>
   (\<forall>a b. shift_id a = shift_id b \<longrightarrow> a = b) \<and>
   shift_id 1 = ''shift_001'' \<and> shift_id 2 = ''shift_002''"
proof -
  let ?out = "res_parsed_shifts (get_shifts rnd html soup debug_info)"
  have out: "?out = parse_shifts rnd (doc_tables soup) \<or> ?out = parse_column_layout soup"
    by (simp add: get_shifts_def Let_def)
  then have ok: "ids_ok (length ?out) ?out"
    using parse_shifts_ids[of rnd "doc_tables soup"] parse_column_layout_ids[of soup] by auto
  then have "map sh_id ?out = map (\<lambda>i. Some (shift_id i)) [1..<Suc (length ?out)]"
    by (simp add: ids_ok_def)
  moreover from this have "distinct (map sh_id ?out)"
    using distinct_shift_ids[of 1 "Suc (length ?out)"] by simp
  moreover have "shift_id 1 = ''shift_001''" "shift_id 2 = ''shift_002''"
    by code_simp+
  ultimately show ?thesis using shift_id_inj by blast
qed

lemma table_page_ids:
  "map sh_id (res_parsed_shifts (get_shifts (\<lambda>k. 3) ''html'' table_page [])) =
     [Some ''shift_001'', Some ''shift_002'']"
  by code_simp

theorem ids_sequential_witness:
  "map sh_id (res_parsed_shifts (get_shifts (\<lambda>k. 3) ''html'' table_page [])) =
     [Some (shift_id 1), Some (shift_id 2)] \<and>
   distinct (map sh_id (res_parsed_shifts (get_shifts (\<lambda>k. 3) ''html'' table_page [])))"
proof -
  have "length (res_parsed_shifts (get_shifts (\<lambda>k. 3) ''html'' table_page [])) = 2"
    using table_page_ids by (metis length_map length_Cons list.size(3) numeral_2_eq_2)
  moreover have "[1..<Suc 2] = [1, 2]" by (simp add: upt_rec)
  ultimately show ?thesis
    using ids_sequential[of "\<lambda>k. 3" "''html''" table_page "[]"] by simp
qed

subsection \<open>The fuzzy category matcher and empty cells\<close>

lemma contains_empty: "contains s []"
  by (cases s) simp_all

lemma lower_Receiving: "lower ''Receiving'' = ''receiving''"
  by (simp add: lower_def lower_char_def upper_letters_def lower_letters_def)

lemma fuzzy_committee_blank:
  assumes "strip text = []"
  shows "fuzzy_committee text = Some ''Receiving''"
  using assms by (simp add: fuzzy_committee_def KNOWN_COMMITTEES_def lower_def contains_empty)

lemma fuzzy_committee_substring:
  assumes "\<exists>c\<in>set KNOWN_COMMITTEES. contains (lower c) (lower (strip text))"
  shows "fuzzy_committee text \<noteq> None"
  using assms unfolding fuzzy_committee_def Let_def find_None_iff by blast

lemma committee_of_scan:
  "committee_of (scan_cell st txt) =
     (if committee_of st = [] then
        (case fuzzy_committee txt of
           Some cm \<Rightarrow> if cm \<noteq> [] then cm else committee_of st
         | None \<Rightarrow> committee_of st)
      else committee_of st)"
  by (cases st) (auto simp: scan_cell_def committee_of_def Let_def split: option.splits)

lemma committee_kept:
  "committee_of st \<noteq> [] \<Longrightarrow> committee_of (foldl scan_cell st txts) = committee_of st"
  by (induction txts arbitrary: st) (simp_all add: committee_of_scan)

lemma committee_not_found:
  "committee_of st = [] \<Longrightarrow> \<forall>t\<in>set txts. fuzzy_committee t = None \<Longrightarrow>
   committee_of (foldl scan_cell st txts) = []"
  by (induction txts arbitrary: st) (simp_all add: committee_of_scan)

lemma committee_from_blank_cell:
  assumes i: "i < length texts" and blank: "strip (texts ! i) = []"
    and before: "\<forall>j<i. fuzzy_committee (texts ! j) = None"
    and start: "committee_of st = []"
  shows "committee_of (foldl scan_cell st texts) = ''Receiving''"
proof -
  have split: "texts = take i texts @ texts ! i # drop (Suc i) texts"
    using i by (rule id_take_nth_drop)
  have "\<forall>t\<in>set (take i texts). fuzzy_committee t = None"
  proof
    fix t assume "t \<in> set (take i texts)"
    then obtain j where "j < length (take i texts)" "take i texts ! j = t"
      by (auto simp: in_set_conv_nth)
    with before show "fuzzy_committee t = None" by auto
  qed
  with start have a: "committee_of (foldl scan_cell st (take i texts)) = []"
    by (rule committee_not_found)
  have b: "committee_of (scan_cell (foldl scan_cell st (take i texts)) (texts ! i)) = ''Receiving''"
    using a fuzzy_committee_blank[OF blank] by (simp add: committee_of_scan)
  have "foldl scan_cell st texts =
        foldl scan_cell (scan_cell (foldl scan_cell st (take i texts)) (texts ! i))
          (drop (Suc i) texts)"
    by (subst split) (simp only: foldl_append foldl_Cons)
  then show ?thesis using committee_kept[of "scan_cell (foldl scan_cell st (take i texts)) (texts ! i)"] b
    by simp
qed

lemma extract_shift_emits:
  assumes "header_fields hm cur (map cell_text cells) = (d0, t0, c0, s0, desc0)"
    and "committee_of (foldl scan_cell (d0, t0, c0, s0) (map cell_text cells)) = c"
    and "c \<noteq> []"
  shows "\<exists>sh. fst (extract_shift rnd k cells hm cur tbl row) = Some sh \<and> sh_committee sh = Some c"
proof -
  obtain d t c' s where f: "foldl scan_cell (d0, t0, c0, s0) (map cell_text cells) = (d, t, c', s)"
    by (metis prod_cases4)
  with assms(2) have "c' = c" by (simp add: committee_of_def)
  with f assms(1,3) show ?thesis
    by (simp add: extract_shift_def Let_def)
qed

lemma header_fields_committee:
  assumes "header_fields hm cur texts = (d0, t0, c0, s0, desc0)"
    and "hm = empty_hmap \<or> or_empty (safe_idx texts (hm_committee hm)) = []"
  shows "c0 = []"
  using assms by (auto simp: header_fields_def split: if_splits)

text \<open>
  C10. \<open>_fuzzy_committee\<close> returns a catalog entry whenever the stripped, lower-cased
  text is a substring of the lower-cased name of some catalog entry; for a text that is
  empty or all white space it returns the first entry, Receiving. In the table strategy, a
  data row with a cell whose text is empty, no cell before it that the matcher recognises
  and no category from the header map is emitted (it passes the rejection check) with the
  category Receiving.
\<close>

theorem fuzzy_committee_empty_cell:
  "((\<exists>c\<in>set KNOWN_COMMITTEES. contains (lower c) (lower (strip text))) \<longrightarrow>
      fuzzy_committee text \<noteq> None) \<and>
   (strip text = [] \<longrightarrow> fuzzy_committee text = Some ''Receiving'') \<and>
   (i < length cells \<and> strip (cell_text (cells ! i)) = [] \<and>
    (\<forall>j<i. fuzzy_committee (cell_text (cells ! j)) = None) \<and>
    (hm = empty_hmap \<or> or_empty (safe_idx (map cell_text cells) (hm_committee hm)) = []) \<longrightarrow>
      (\<exists>sh. fst (extract_shift rnd k cells hm cur tbl row) = Some sh \<and>
            sh_committee sh = Some ''Receiving''))"
proof (intro conjI impI)
  assume "\<exists>c\<in>set KNOWN_COMMITTEES. contains (lower c) (lower (strip text))"
  then show "fuzzy_committee text \<noteq> None" by (rule fuzzy_committee_substring)
next
  assume "strip text = []"
  then show "fuzzy_committee text = Some ''Receiving''" by (rule fuzzy_committee_blank)
next
  assume a: "i < length cells \<and> strip (cell_text (cells ! i)) = [] \<and>
    (\<forall>j<i. fuzzy_committee (cell_text (cells ! j)) = None) \<and>
    (hm = empty_hmap \<or> or_empty (safe_idx (map cell_text cells) (hm_committee hm)) = [])"
  let ?texts = "map cell_text cells"
  obtain d0 t0 c0 s0 desc0 where hf: "header_fields hm cur ?texts = (d0, t0, c0, s0, desc0)"
    by (metis prod_cases5)
  have "c0 = []" using hf a by (blast intro: header_fields_committee)
  then have start: "committee_of (d0, t0, c0, s0) = []" by (simp add: committee_of_def)
  have i: "i < length ?texts" using a by simp
  have blank: "strip (?texts ! i) = []" using a by simp
  have before: "\<forall>j<i. fuzzy_committee (?texts ! j) = None" using a by simp
  have "committee_of (foldl scan_cell (d0, t0, c0, s0) ?texts) = ''Receiving''"
    using i blank before start by (rule committee_from_blank_cell)
  with hf show "\<exists>sh. fst (extract_shift rnd k cells hm cur tbl row) = Some sh \<and>
            sh_committee sh = Some ''Receiving''"
    by (rule extract_shift_emits) simp
qed

theorem fuzzy_committee_empty_cell_witness:
  "contains (lower ''Produce'') (lower (strip '' prod '')) \<and>
   fuzzy_committee '' prod '' \<noteq> None \<and>
   strip ''  '' = [] \<and> fuzzy_committee ''  '' = Some ''Receiving'' \<and>
   fuzzy_committee (cell_text ([plain_cell ''x'', plain_cell []] ! 0)) = None \<and>
   (\<exists>sh. fst (extract_shift (\<lambda>k. 3) 0 [plain_cell ''x'', plain_cell []]
               (detect_headers (map plain_cell [''Day'', ''Time'', ''Committee'']))
               (Some ''Tuesday'') 0 3) = Some sh \<and>
         sh_committee sh = Some ''Receiving'')"
proof -
  let ?cells = "[plain_cell ''x'', plain_cell []]"
  let ?hm = "detect_headers (map plain_cell [''Day'', ''Time'', ''Committee''])"
  have p: "contains (lower ''Produce'') (lower (strip '' prod ''))" by code_simp
  have k: "''Produce'' \<in> set KNOWN_COMMITTEES" by (simp add: KNOWN_COMMITTEES_def)
  have s: "strip ''  '' = []" by code_simp
  have x: "fuzzy_committee (cell_text (?cells ! 0)) = None" by code_simp
  have b: "strip (cell_text (?cells ! 1)) = []" by code_simp
  have h: "or_empty (safe_idx (map cell_text ?cells) (hm_committee ?hm)) = []" by code_simp
  have before: "\<forall>j<1. fuzzy_committee (cell_text (?cells ! j)) = None" using x by simp
  have "fuzzy_committee '' prod '' \<noteq> None"
    using fuzzy_committee_empty_cell[of "'' prod ''"] p k by blast
  moreover have "fuzzy_committee ''  '' = Some ''Receiving''"
    using fuzzy_committee_empty_cell[of "''  ''"] s by blast
  moreover have "\<exists>sh. fst (extract_shift (\<lambda>k. 3) 0 ?cells ?hm (Some ''Tuesday'') 0 3) = Some sh \<and>
         sh_committee sh = Some ''Receiving''"
    using fuzzy_committee_empty_cell[of "[]" 1 ?cells ?hm "\<lambda>k. 3" 0 "Some ''Tuesday''" 0 3]
      b before h by simp
  ultimately show ?thesis using p s x by blast
qed

subsection \<open>Day names\<close>

text \<open>
  Wherever the source normalises a day it has a text that begins with a day
  abbreviation; the result is then one of the seven day names and the title-cased
  fallback is not taken.
\<close>

lemma startswith_take: "startswith s p \<Longrightarrow> take (length p) s = p"
  by (induction s p rule: startswith.induct) simp_all

lemma lower_DAY_NAMES:
  "map lower DAY_NAMES =
     [''monday'', ''tuesday'', ''wednesday'', ''thursday'', ''friday'', ''saturday'', ''sunday'']"
  by code_simp

lemma normalize_day_of_day_name:
  assumes "is_day_name text"
  shows "normalize_day text \<in> set DAY_NAMES"
proof -
  let ?t = "lower (strip text)"
  from assms obtain p where
    p: "p \<in> set [''mon'', ''tue'', ''wed'', ''thu'', ''fri'', ''sat'', ''sun'']"
       "startswith ?t p"
    unfolding is_day_name_def list_ex_iff by blast
  then have "length p = 3" by auto
  with startswith_take[OF p(2)] have t: "take 3 ?t = p" by simp
  have "\<exists>l\<in>set (map lower DAY_NAMES). startswith l p"
    unfolding lower_DAY_NAMES using p(1) by auto
  then have "\<exists>d\<in>set DAY_NAMES. startswith (lower d) p" by auto
  then obtain d where "find (\<lambda>d. startswith (lower d) p) DAY_NAMES = Some d"
    by (metis find_None_iff option.exhaust)
  moreover from this have "d \<in> set DAY_NAMES"
    by (auto simp: find_Some_iff)
  ultimately show ?thesis by (simp add: normalize_day_def t)
qed

end
